theory Spec2Isabelle
  imports Main "HOL-Library.Sublist"
begin

section \<open>JavaScript strings\<close>

text \<open>
  A JavaScript string is modelled as a \<^typ>\<open>string\<close>: a list of characters, each one a
  code point below 256 (the Latin-1 range). Within that range \<open>String.prototype.trim\<close>
  removes TAB, LF, VT, FF, CR, SPACE and NO-BREAK SPACE, and \<open>toLowerCase\<close> maps
  \<open>A..Z\<close>, \<open>U+00C0..U+00D6\<close> and \<open>U+00D8..U+00DE\<close> to the letter 32 places further on.
\<close>

abbreviation backslash :: char where "backslash \<equiv> CHR 0x5C"
abbreviation dquote :: char where "dquote \<equiv> CHR 0x22"
abbreviation squote :: char where "squote \<equiv> CHR 0x27"
abbreviation newline :: char where "newline \<equiv> CHR 0x0A"
abbreviation creturn :: char where "creturn \<equiv> CHR 0x0D"
abbreviation tab :: char where "tab \<equiv> CHR 0x09"

definition js_whitespace :: "char \<Rightarrow> bool" where
  "js_whitespace c \<longleftrightarrow>
     c \<in> set [CHR 0x09, CHR 0x0A, CHR 0x0B, CHR 0x0C, CHR 0x0D, CHR 0x20, CHR 0xA0]"

definition js_trim :: "string \<Rightarrow> string" where
  "js_trim s = rev (dropWhile js_whitespace (rev (dropWhile js_whitespace s)))"

definition upper_letters :: string where
  "upper_letters = ''ABCDEFGHIJKLMNOPQRSTUVWXYZ'' @
     [CHR 0xC0, CHR 0xC1, CHR 0xC2, CHR 0xC3, CHR 0xC4, CHR 0xC5, CHR 0xC6, CHR 0xC7,
      CHR 0xC8, CHR 0xC9, CHR 0xCA, CHR 0xCB, CHR 0xCC, CHR 0xCD, CHR 0xCE, CHR 0xCF,
      CHR 0xD0, CHR 0xD1, CHR 0xD2, CHR 0xD3, CHR 0xD4, CHR 0xD5, CHR 0xD6,
      CHR 0xD8, CHR 0xD9, CHR 0xDA, CHR 0xDB, CHR 0xDC, CHR 0xDD, CHR 0xDE]"

definition lower_letters :: string where
  "lower_letters = ''abcdefghijklmnopqrstuvwxyz'' @
     [CHR 0xE0, CHR 0xE1, CHR 0xE2, CHR 0xE3, CHR 0xE4, CHR 0xE5, CHR 0xE6, CHR 0xE7,
      CHR 0xE8, CHR 0xE9, CHR 0xEA, CHR 0xEB, CHR 0xEC, CHR 0xED, CHR 0xEE, CHR 0xEF,
      CHR 0xF0, CHR 0xF1, CHR 0xF2, CHR 0xF3, CHR 0xF4, CHR 0xF5, CHR 0xF6,
      CHR 0xF8, CHR 0xF9, CHR 0xFA, CHR 0xFB, CHR 0xFC, CHR 0xFD, CHR 0xFE]"

definition js_lower_char :: "char \<Rightarrow> char" where
  "js_lower_char c = (case map_of (zip upper_letters lower_letters) c of
                        Some d \<Rightarrow> d | None \<Rightarrow> c)"

definition toLowerCase :: "string \<Rightarrow> string" where
  "toLowerCase s = map js_lower_char s"

text \<open>\<open>haystack.includes(needle)\<close>: the needle occurs at some position.\<close>

fun js_includes :: "string \<Rightarrow> string \<Rightarrow> bool" where
  "js_includes [] needle = (needle = [])"
| "js_includes (c # cs) needle = (prefix needle (c # cs) \<or> js_includes cs needle)"

text \<open>\<open>s.replaceAll(c, r)\<close> for a one-character pattern \<open>c\<close>.\<close>

definition replaceAll :: "char \<Rightarrow> string \<Rightarrow> string \<Rightarrow> string" where
  "replaceAll c r s = concat (map (\<lambda>x. if x = c then r else [x]) s)"

text \<open>\<open>xs.join(sep)\<close>.\<close>

fun js_join :: "string \<Rightarrow> string list \<Rightarrow> string" where
  "js_join sep [] = []"
| "js_join sep [x] = x"
| "js_join sep (x # y # ys) = x @ sep @ js_join sep (y # ys)"


subsection \<open>Anchored regular expressions\<close>

text \<open>
  The two patterns of \<open>validateValueForType\<close> are anchored with \<open>^\<close> and \<open>$\<close> and carry no
  flag, so \<open>test\<close> asks whether the whole string is in the pattern's language. The
  language is decided with Brzozowski derivatives.
\<close>

datatype rx =
    Never
  | Empty
  | OneOf string
  | Alt rx rx
  | Seq rx rx
  | Star rx

definition Plus :: "rx \<Rightarrow> rx" where
  "Plus r = Seq r (Star r)"

definition Opt :: "rx \<Rightarrow> rx" where
  "Opt r = Alt r Empty"

fun nullable :: "rx \<Rightarrow> bool" where
  "nullable Never = False"
| "nullable Empty = True"
| "nullable (OneOf cs) = False"
| "nullable (Alt r s) = (nullable r \<or> nullable s)"
| "nullable (Seq r s) = (nullable r \<and> nullable s)"
| "nullable (Star r) = True"

fun deriv :: "char \<Rightarrow> rx \<Rightarrow> rx" where
  "deriv c Never = Never"
| "deriv c Empty = Never"
| "deriv c (OneOf cs) = (if c \<in> set cs then Empty else Never)"
| "deriv c (Alt r s) = Alt (deriv c r) (deriv c s)"
| "deriv c (Seq r s) =
     (if nullable r then Alt (Seq (deriv c r) s) (deriv c s) else Seq (deriv c r) s)"
| "deriv c (Star r) = Seq (deriv c r) (Star r)"

definition rx_test :: "rx \<Rightarrow> string \<Rightarrow> bool" where
  "rx_test r s = nullable (foldl (\<lambda>q c. deriv c q) r s)"

definition digit :: rx where
  "digit = OneOf ''0123456789''"

definition sign :: rx where
  "sign = OneOf ''+-''"

text \<open>\<open>/^[+-]?\d+$/\<close>\<close>

definition int_pattern :: rx where
  "int_pattern = Seq (Opt sign) (Plus digit)"

text \<open>\<open>/^[+-]?(?:(?:\d+\.\d*|\d*\.\d+|\d+)(?:[eE][+-]?\d+)?)$/\<close>\<close>

definition real_pattern :: rx where
  "real_pattern =
     Seq (Opt sign)
       (Seq (Alt (Seq (Plus digit) (Seq (OneOf ''.'') (Star digit)))
              (Alt (Seq (Star digit) (Seq (OneOf ''.'') (Plus digit)))
                   (Plus digit)))
            (Opt (Seq (OneOf ''eE'') (Seq (Opt sign) (Plus digit)))))"

section \<open>The plist tool: \<open>set_plist_value\<close>\<close>

subsection \<open>Key paths\<close>

datatype KeyPathParseResult =
    ParseOk "string list"
  | ParseError string

text \<open>
  The loop of \<open>parseKeyPathSegments\<close> over the characters of the key path, with its three
  variables \<open>segments\<close>, \<open>currentSegment\<close> and \<open>escaping\<close>; the first equation is the code
  after the loop.
\<close>

fun parseKeyPathLoop :: "string \<Rightarrow> string list \<Rightarrow> string \<Rightarrow> bool \<Rightarrow> KeyPathParseResult" where
  "parseKeyPathLoop [] segments currentSegment escaping =
     (if escaping then ParseError ''Key path ends with an unfinished escape sequence.''
      else if js_trim currentSegment = []
        then ParseError ''Key path contains an empty segment.''
        else ParseOk (segments @ [js_trim currentSegment]))"
| "parseKeyPathLoop (character # rest) segments currentSegment escaping =
     (if escaping then parseKeyPathLoop rest segments (currentSegment @ [character]) False
      else if character = backslash then parseKeyPathLoop rest segments currentSegment True
      else if character = CHR '':'' then
        (if js_trim currentSegment = []
           then ParseError ''Key path contains an empty segment.''
           else parseKeyPathLoop rest (segments @ [js_trim currentSegment]) [] False)
      else parseKeyPathLoop rest segments (currentSegment @ [character]) False)"

definition parseKeyPathSegments :: "string \<Rightarrow> KeyPathParseResult" where
  "parseKeyPathSegments keyPath = parseKeyPathLoop keyPath [] [] False"

definition escapeKeySegmentForPlistBuddy :: "string \<Rightarrow> string" where
  "escapeKeySegmentForPlistBuddy segment =
     replaceAll (CHR '':'') [backslash, CHR '':'']
       (replaceAll backslash [backslash, backslash] segment)"

datatype NormalizedKeyPath =
    KeyPathOk "string list" string
  | KeyPathError string

definition normalizeKeyPathForPlistBuddy :: "string \<Rightarrow> NormalizedKeyPath" where
  "normalizeKeyPathForPlistBuddy keyPath =
     (case parseKeyPathSegments keyPath of
        ParseError e \<Rightarrow> KeyPathError e
      | ParseOk segments \<Rightarrow>
          KeyPathOk segments
            ('':'' @ js_join '':'' (map escapeKeySegmentForPlistBuddy segments)))"

text \<open>
  The reading of a key path that the description of the tool gives: the path is cut at
  every colon that is not escaped, a backslash makes the next character literal, and a
  backslash with nothing after it is an unfinished escape.
\<close>

fun colon_segments :: "string \<Rightarrow> string list" where
  "colon_segments [] = [[]]"
| "colon_segments [c] = (if c = backslash then [[]] else if c = CHR '':'' then [[], []] else [[c]])"
| "colon_segments (c # d # cs) =
     (if c = backslash then
        (case colon_segments cs of [] \<Rightarrow> [[d]] | s # ss \<Rightarrow> (d # s) # ss)
      else if c = CHR '':'' then [] # colon_segments (d # cs)
      else (case colon_segments (d # cs) of [] \<Rightarrow> [[c]] | s # ss \<Rightarrow> (c # s) # ss))"

fun unfinished_escape :: "string \<Rightarrow> bool" where
  "unfinished_escape [] = False"
| "unfinished_escape [c] = (c = backslash)"
| "unfinished_escape (c # d # cs) =
     (if c = backslash then unfinished_escape cs else unfinished_escape (d # cs))"

subsection \<open>Values\<close>

datatype plistValueType = String_t | Bool_t | Int_t | Real_t

text \<open>The words PlistBuddy's \<open>Add\<close> command takes: the members of the enum as strings.\<close>

fun valueTypeName :: "plistValueType \<Rightarrow> string" where
  "valueTypeName String_t = ''string''"
| "valueTypeName Bool_t = ''bool''"
| "valueTypeName Int_t = ''int''"
| "valueTypeName Real_t = ''real''"

text \<open>The loop of \<open>quotePlistBuddyString\<close>, with its variable \<open>escaped\<close>.\<close>

fun quoteLoop :: "string \<Rightarrow> string \<Rightarrow> string" where
  "quoteLoop [] escaped = escaped"
| "quoteLoop (character # rest) escaped =
     (if character = backslash then quoteLoop rest (escaped @ [backslash, backslash])
      else if character = dquote then quoteLoop rest (escaped @ [backslash, dquote])
      else if character = newline then quoteLoop rest (escaped @ [backslash, CHR ''n''])
      else if character = creturn then quoteLoop rest (escaped @ [backslash, CHR ''r''])
      else if character = tab then quoteLoop rest (escaped @ [backslash, CHR ''t''])
      else quoteLoop rest (escaped @ [character]))"

definition quotePlistBuddyString :: "string \<Rightarrow> string" where
  "quotePlistBuddyString v = [dquote] @ quoteLoop v [] @ [dquote]"

text \<open>
  The escape of one character as the description of the tool words it: backslash, double
  quote, newline, carriage return and tab each become a backslash escape.
\<close>

definition escape_of :: "char \<Rightarrow> string" where
  "escape_of c =
     (if c = backslash then [backslash, backslash]
      else if c = dquote then [backslash, dquote]
      else if c = newline then [backslash, CHR ''n'']
      else if c = creturn then [backslash, CHR ''r'']
      else if c = tab then [backslash, CHR ''t'']
      else [c])"

text \<open>
  \<open>validateValueForType\<close> returns the message of the failure, or \<open>null\<close>. Its \<open>real\<close>
  branch asks \<open>Number.isFinite(Number(normalized))\<close>, a floating-point conversion of the
  runtime; that test is the parameter \<open>numberIsFinite\<close>.
\<close>

definition validateValueForType :: "(string \<Rightarrow> bool) \<Rightarrow> string \<Rightarrow> plistValueType \<Rightarrow> string option" where
  "validateValueForType numberIsFinite v valueType =
     (if valueType = Bool_t then
        (if toLowerCase (js_trim v) \<noteq> ''true'' \<and> toLowerCase (js_trim v) \<noteq> ''false''
           then Some ''Boolean values must be true or false.''
           else None)
      else if valueType = Int_t then
        (if \<not> rx_test int_pattern (js_trim v)
           then Some ''Integer values must use whole-number format (for example: -1, 0, 42).''
           else None)
      else if valueType = Real_t then
        (if \<not> rx_test real_pattern (js_trim v) \<or> \<not> numberIsFinite (js_trim v)
           then Some ''Real values must use finite decimal or scientific format (for example: 1.0, -0.5, 1e3).''
           else None)
      else None)"

datatype SetFailureClassification = MissingKey | NonMissing | Unknown

definition classifySetFailure :: "string \<Rightarrow> SetFailureClassification" where
  "classifySetFailure errorOrOutput =
     (let normalized = toLowerCase errorOrOutput in
      if js_includes normalized ''does not exist'' \<or>
         js_includes normalized ''unknown entry'' \<or>
         js_includes normalized ''missing key''
        then MissingKey
      else if js_includes normalized ''type mismatch'' \<or>
              js_includes normalized ''cannot parse'' \<or>
              js_includes normalized ''malformed'' \<or>
              js_includes normalized ''invalid''
        then NonMissing
      else Unknown)"

text \<open>\<open>getCommandErrorText(output?, error?)\<close>: an absent argument is \<open>None\<close>.\<close>

definition getCommandErrorText :: "string option \<Rightarrow> string option \<Rightarrow> string" where
  "getCommandErrorText out err =
     (case map_option js_trim err of
        Some (c # cs) \<Rightarrow> c # cs
      | _ \<Rightarrow>
        (case map_option js_trim out of
           Some (c # cs) \<Rightarrow> c # cs
         | _ \<Rightarrow> ''Unknown error''))"

definition normalizeDisplayedValue :: "string \<Rightarrow> plistValueType \<Rightarrow> string" where
  "normalizeDisplayedValue v valueType = (if valueType = String_t then v else js_trim v)"

datatype NormalizedValueResult =
    ValueOk string string
  | ValueError string

text \<open>\<open>ValueOk normalizedValue commandValue\<close>. The last \<open>return\<close> of the source is for a
  value type outside the enum and has no counterpart here.\<close>

definition normalizeValueForType :: "(string \<Rightarrow> bool) \<Rightarrow> string \<Rightarrow> plistValueType \<Rightarrow> NormalizedValueResult" where
  "normalizeValueForType numberIsFinite v valueType =
     (case validateValueForType numberIsFinite v valueType of
        Some validationError \<Rightarrow> ValueError validationError
      | None \<Rightarrow>
          if valueType = Bool_t then ValueOk (toLowerCase (js_trim v)) (toLowerCase (js_trim v))
          else if valueType = Int_t \<or> valueType = Real_t then ValueOk (js_trim v) (js_trim v)
          else ValueOk v (quotePlistBuddyString v))"

subsection \<open>Commands, exceptions and the call log\<close>

text \<open>
  What a \<open>throw\<close> raises (and what a rejected promise carries): an \<open>Error\<close> object with its
  message, or any other value with its \<open>String(...)\<close> rendering.
\<close>

datatype thrown = ErrorObject string | OtherValue string

record CommandResponse =
  success :: bool
  "output" :: string
  error :: "string option"

text \<open>
  The operations of the environment that the two tools invoke. A call is logged when it
  is made, before its outcome is known.
\<close>

datatype call =
    ExecutorCall "string list" string
  | ResolveAxeBinaryCall
  | IsXcodemakeBinaryAvailableCall
  | LoadManifestCall

record 's world =
  exec_state :: 's
  calls :: "call list"

text \<open>
  The injected \<open>CommandExecutor\<close>: given the command, the log prefix and its own state
  (mocks count their invocations; the real one runs a process), the promise it returns
  either rejects or resolves to a response, and the state moves on.
\<close>

type_synonym 's CommandExecutor = "string list \<Rightarrow> string \<Rightarrow> 's \<Rightarrow> (thrown + CommandResponse) \<times> 's"

text \<open>An \<open>async\<close> body: it runs in a world and either throws or returns.\<close>

type_synonym ('a, 's) prog = "'s world \<Rightarrow> (thrown + 'a) \<times> 's world"

definition returns :: "'a \<Rightarrow> ('a, 's) prog" where
  "returns x w = (Inr x, w)"


definition and_then :: "('a, 's) prog \<Rightarrow> ('a \<Rightarrow> ('b, 's) prog) \<Rightarrow> ('b, 's) prog" where
  "and_then m f w = (case m w of (Inl e, w') \<Rightarrow> (Inl e, w') | (Inr x, w') \<Rightarrow> f x w')"

definition try_catch :: "('a, 's) prog \<Rightarrow> (thrown \<Rightarrow> ('a, 's) prog) \<Rightarrow> ('a, 's) prog" where
  "try_catch m handler w = (case m w of (Inl e, w') \<Rightarrow> handler e w' | (Inr x, w') \<Rightarrow> (Inr x, w'))"

definition await_executor :: "'s CommandExecutor \<Rightarrow> string list \<Rightarrow> string \<Rightarrow> (CommandResponse, 's) prog" where
  "await_executor executor command logPrefix w =
     (case executor command logPrefix (exec_state w) of
        (outcome, s') \<Rightarrow>
          (outcome, \<lparr>exec_state = s', calls = calls w @ [ExecutorCall command logPrefix]\<rparr>))"

definition fresh :: "'s \<Rightarrow> 's world" where
  "fresh s = \<lparr>exec_state = s, calls = []\<rparr>"

text \<open>
  Modelled from the spec: \<open>createErrorResponse\<close> of \<open>utils/responses\<close> is not among the
  sources. The structured error response it builds from a message and details is the
  constructor \<open>ErrorResponse message details\<close>; \<open>TextResponse text\<close> is the response
  \<open>{content: [{type: 'text', text}], isError: false}\<close> that the tool builds itself.
\<close>

datatype ToolResponse =
    ErrorResponse string string
  | TextResponse string

fun isError :: "ToolResponse \<Rightarrow> bool" where
  "isError (ErrorResponse message details) = True"
| "isError (TextResponse t) = False"

record SetPlistValueParams =
  plistPath :: string
  keyPath :: string
  "value" :: string
  valueType :: plistValueType
  createIfMissing :: bool

definition runPlistBuddyCommand :: "string \<Rightarrow> string \<Rightarrow> 's CommandExecutor \<Rightarrow> string \<Rightarrow> (CommandResponse, 's) prog" where
  "runPlistBuddyCommand plistCommand path executor logPrefix =
     and_then (await_executor executor [''/usr/libexec/PlistBuddy'', ''-c'', plistCommand, path] logPrefix)
       (\<lambda>result. returns \<lparr>success = success result, output = output result, error = error result\<rparr>)"

subsection \<open>\<open>set_plist_valueLogic\<close>\<close>

text \<open>The best-effort read of the existing value: the \<open>try\<close> block and its empty \<open>catch\<close>.\<close>

definition readPreviousValue :: "SetPlistValueParams \<Rightarrow> string \<Rightarrow> 's CommandExecutor \<Rightarrow> (string option, 's) prog" where
  "readPreviousValue params plistBuddyKeyPath executor =
     try_catch
       (and_then (runPlistBuddyCommand (''Print '' @ plistBuddyKeyPath) (plistPath params) executor
                    ''Read existing plist value'')
          (\<lambda>previousResult.
             returns (if success previousResult
                      then Some (normalizeDisplayedValue (output previousResult) (valueType params))
                      else None)))
       (\<lambda>e. returns None)"

text \<open>
  The block \<open>if (!setResult.success) { ... }\<close>. It yields \<open>Some response\<close> where the source
  returns from inside the block, and \<open>None\<close> where control goes on to the verification.
\<close>

definition addFallback :: "SetPlistValueParams \<Rightarrow> string \<Rightarrow> string \<Rightarrow> 's CommandExecutor \<Rightarrow> CommandResponse \<Rightarrow> (ToolResponse option, 's) prog" where
  "addFallback params plistBuddyKeyPath commandValue executor setResult =
     (if \<not> success setResult then
        (let setErrorText = getCommandErrorText (Some (output setResult)) (error setResult);
             setFailureType = classifySetFailure setErrorText
         in if \<not> createIfMissing params then
              returns (Some (ErrorResponse ''Failed to set plist value'' (''set_error: '' @ setErrorText)))
            else if setFailureType = NonMissing then
              returns (Some (ErrorResponse ''Failed to set plist value'' (''set_error: '' @ setErrorText)))
            else
              and_then (runPlistBuddyCommand
                          (''Add '' @ plistBuddyKeyPath @ '' '' @ valueTypeName (valueType params) @ '' '' @ commandValue)
                          (plistPath params) executor ''Add plist value'')
                (\<lambda>addResult.
                   if \<not> success addResult then
                     returns (Some (ErrorResponse ''Failed to set plist value''
                       (js_join [newline]
                          [''set_error: '' @ setErrorText,
                           ''add_error: '' @ getCommandErrorText (Some (output addResult)) (error addResult)])))
                   else returns None))
      else returns None)"

text \<open>The verification read and the success response.\<close>

definition verifyAndReport :: "SetPlistValueParams \<Rightarrow> string \<Rightarrow> 's CommandExecutor \<Rightarrow> string option \<Rightarrow> (ToolResponse, 's) prog" where
  "verifyAndReport params plistBuddyKeyPath executor previousValue =
     and_then (runPlistBuddyCommand (''Print '' @ plistBuddyKeyPath) (plistPath params) executor
                 ''Verify plist value'')
       (\<lambda>verifyResult.
          if \<not> success verifyResult then
            returns (ErrorResponse ''Failed to verify plist write''
              (''verify_error: '' @ getCommandErrorText (Some (output verifyResult)) (error verifyResult)))
          else
            returns (TextResponse
              (''Set plist key '' @ [squote] @ keyPath params @ [squote] @ '' in '' @ [squote] @
               plistPath params @ [squote] @ '' to '' @ [squote] @
               normalizeDisplayedValue (output verifyResult) (valueType params) @ [squote] @ ''.'' @
               (case previousValue of
                  Some previous \<Rightarrow> '' Previous value: '' @ previous @ ''.''
                | None \<Rightarrow> []))))"

text \<open>
  The injected \<open>fileSystemExecutor.existsSync\<close>: like every injected function it either
  throws or returns. The tool calls it outside any \<open>try\<close>.
\<close>

type_synonym ExistsSync = "string \<Rightarrow> thrown + bool"

definition call_existsSync :: "ExistsSync \<Rightarrow> string \<Rightarrow> (bool, 's) prog" where
  "call_existsSync existsSync path w = (existsSync path, w)"

text \<open>
  \<open>set_plist_valueLogic(params, executor, fileSystemExecutor)\<close>; of the file system
  executor only \<open>existsSync\<close> is used.
\<close>

definition set_plist_valueLogic :: "(string \<Rightarrow> bool) \<Rightarrow> SetPlistValueParams \<Rightarrow> 's CommandExecutor \<Rightarrow> ExistsSync \<Rightarrow> (ToolResponse, 's) prog" where
  "set_plist_valueLogic numberIsFinite params executor existsSync =
     and_then (call_existsSync existsSync (plistPath params))
      (\<lambda>fileExists.
      if \<not> fileExists then
        returns (ErrorResponse ''Plist file not found''
                   (''No file exists at '' @ [squote] @ plistPath params @ [squote] @ ''.''))
      else
        (case normalizeKeyPathForPlistBuddy (keyPath params) of
           KeyPathError e \<Rightarrow>
             returns (ErrorResponse ''Parameter validation failed''
                        (''Invalid parameters:'' @ [newline] @ ''keyPath: '' @ e))
         | KeyPathOk segments plistBuddyKeyPath \<Rightarrow>
             if plistBuddyKeyPath = [] then
               returns (ErrorResponse ''Parameter validation failed''
                          (''Invalid parameters:'' @ [newline] @ ''keyPath: '' @ ''Invalid key path.''))
             else
               (case normalizeValueForType numberIsFinite (value params) (valueType params) of
                  ValueError e \<Rightarrow> returns (ErrorResponse ''Parameter validation failed'' e)
                | ValueOk normalizedValue commandValue \<Rightarrow>
                    and_then (readPreviousValue params plistBuddyKeyPath executor)
                      (\<lambda>previousValue.
                         and_then (runPlistBuddyCommand
                                     (''Set '' @ plistBuddyKeyPath @ '' '' @ commandValue)
                                     (plistPath params) executor ''Set plist value'')
                           (\<lambda>setResult.
                              and_then (addFallback params plistBuddyKeyPath commandValue executor setResult)
                                (\<lambda>early.
                                   case early of
                                     Some response \<Rightarrow> returns response
                                   | None \<Rightarrow> verifyAndReport params plistBuddyKeyPath executor previousValue))))))"

section \<open>The doctor tool: probe adapters\<close>

text \<open>
  Modelled from the spec: the functions that \<open>doctor.deps.ts\<close> imports from
  \<open>utils/axe\<close>, \<open>utils/xcodemake\<close> and \<open>core/manifest\<close> are not among the sources. Each
  is called without arguments, so none of them can reach the injected executor; what
  they do on the machine at hand (throw, or return an answer) is a field of \<open>host\<close>,
  and a call of one is an entry of the call log. \<open>resolveAxeBinary\<close> gives the path of
  the binary or \<open>null\<close>,
  \<open>isXcodemakeBinaryAvailable\<close> is the read-only check of the xcodemake binary (the
  installing variant, \<open>isXcodemakeAvailable\<close>, is not imported by the module),
  \<open>loadManifest\<close> gives the manifest, and \<open>process_env\<close> lists the entries of
  \<open>process.env\<close>.
\<close>

record Manifest =
  workflows :: "(string \<times> string list) list"

record host =
  resolveAxeBinary :: "thrown + string option"
  isXcodemakeBinaryAvailable :: "thrown + bool"
  loadManifest :: "thrown + Manifest"
  process_env :: "(string \<times> string) list"

definition call_resolveAxeBinary :: "host \<Rightarrow> (string option, 's) prog" where
  "call_resolveAxeBinary h w = (resolveAxeBinary h, w\<lparr>calls := calls w @ [ResolveAxeBinaryCall]\<rparr>)"

definition call_isXcodemakeBinaryAvailable :: "host \<Rightarrow> (bool, 's) prog" where
  "call_isXcodemakeBinaryAvailable h w =
     (isXcodemakeBinaryAvailable h, w\<lparr>calls := calls w @ [IsXcodemakeBinaryAvailableCall]\<rparr>)"


text \<open>
  The result \<open>{ available: boolean; version?: string }\<close>: a \<open>version\<close> that is
  \<open>undefined\<close> or left out is \<open>None\<close>.
\<close>

record BinaryAvailability =
  available :: bool
  version :: "string option"

text \<open>
  The \<open>try\<close> blocks that fetch a version: \<open>version\<close> stays \<open>undefined\<close> unless the command
  resolves with \<open>success\<close> and a non-empty output.
\<close>

definition probeVersion :: "'s CommandExecutor \<Rightarrow> string list \<Rightarrow> string \<Rightarrow> (string option, 's) prog" where
  "probeVersion executor command logPrefix =
     try_catch
       (and_then (await_executor executor command logPrefix)
          (\<lambda>res. returns (if success res \<and> output res \<noteq> [] then Some (js_trim (output res)) else None)))
       (\<lambda>e. returns None)"

definition versionOrDefault :: "string option \<Rightarrow> string" where
  "versionOrDefault v = (case v of Some s \<Rightarrow> s | None \<Rightarrow> ''Available (version info not available)'')"

text \<open>
  \<open>checkBinaryAvailability(binary)\<close>. The table \<open>versionCommands\<close> has the one entry
  \<open>mise\<close>; for any other name that \<open>in\<close> finds on the prototype chain, \<open>.split\<close> throws
  inside the \<open>try\<close> before the executor is called, and \<open>version\<close> stays \<open>undefined\<close> just as
  for a name that \<open>in\<close> does not find.
\<close>

definition checkBinaryAvailability :: "host \<Rightarrow> 's CommandExecutor \<Rightarrow> string \<Rightarrow> (BinaryAvailability, 's) prog" where
  "checkBinaryAvailability h executor binary =
     (if binary = ''axe'' then
        and_then (call_resolveAxeBinary h)
          (\<lambda>axeBinary.
             case axeBinary of
               None \<Rightarrow> returns \<lparr>available = False, version = None\<rparr>
             | Some path \<Rightarrow>
                 and_then (probeVersion executor [path, ''--version''] ''Get AXe Version'')
                   (\<lambda>v. returns \<lparr>available = True, version = Some (versionOrDefault v)\<rparr>))
      else if binary = ''xcodemake'' then
        and_then (call_isXcodemakeBinaryAvailable h)
          (\<lambda>avail.
             returns \<lparr>available = avail,
                      version = (if avail then Some ''Available (version info not available)'' else None)\<rparr>)
      else
        and_then
          (try_catch
             (and_then (await_executor executor [''which'', binary] ''Check Binary Availability'')
                (\<lambda>which. returns (success which)))
             (\<lambda>e. returns False))
          (\<lambda>found.
             if \<not> found then returns \<lparr>available = False, version = None\<rparr>
             else
               and_then
                 (if binary = ''mise''
                    then probeVersion executor [''mise'', ''--version''] ''Get Binary Version''
                    else returns None)
                 (\<lambda>v. returns \<lparr>available = True, version = Some (versionOrDefault v)\<rparr>)))"







subsection \<open>The environment accessor\<close>

definition relevantVars :: "string list" where
  "relevantVars =
     [''INCREMENTAL_BUILDS_ENABLED'', ''PATH'', ''DEVELOPER_DIR'', ''HOME'', ''USER'', ''TMPDIR'',
      ''NODE_ENV'', ''SENTRY_DISABLED'', ''AXE_PATH'', ''XBMCP_LAUNCH_JSON_WAIT_MS'',
      ''XCODEBUILDMCP_DEBUGGER_BACKEND'', ''XCODEBUILDMCP_UI_DEBUGGER_GUARD_MODE'']"

text \<open>
  \<open>getEnvironmentVariables()\<close> builds a \<open>Record<string, string | undefined>\<close>: a key of the
  record is in the domain of the map, and a key whose value is \<open>undefined\<close> maps to \<open>None\<close>.
  \<open>process.env[name]\<close> is \<open>map_of (process_env h) name\<close>.
\<close>

definition getEnvironmentVariables :: "host \<Rightarrow> (string \<rightharpoonup> string option)" where
  "getEnvironmentVariables h =
     (let envVars = foldl (\<lambda>envVars varName. envVars(varName \<mapsto> map_of (process_env h) varName))
                      Map.empty relevantVars
      in foldl (\<lambda>envVars key.
                  if prefix ''XCODEBUILDMCP_'' key
                    then envVars(key \<mapsto> map_of (process_env h) key)
                    else envVars)
           envVars (map fst (process_env h)))"

section \<open>Auxiliary definitions for the statements\<close>

text \<open>
  The segments of a key path when the loop has already collected \<open>cur\<close> for the segment
  it is in: the first segment of the rest of the path continues \<open>cur\<close>.
\<close>

definition joined :: "string \<Rightarrow> string \<Rightarrow> string list" where
  "joined cur kp = (case colon_segments kp of [] \<Rightarrow> [cur] | s # rest \<Rightarrow> (cur @ s) # rest)"

text \<open>The log entry of one PlistBuddy invocation.\<close>

definition plistBuddyCall :: "string \<Rightarrow> string \<Rightarrow> string \<Rightarrow> call" where
  "plistBuddyCall plistCommand path logPrefix =
     ExecutorCall [''/usr/libexec/PlistBuddy'', ''-c'', plistCommand, path] logPrefix"



subsection \<open>Executors and hosts of the test suite\<close>

definition finite_always :: "string \<Rightarrow> bool" where
  "finite_always s = True"

definition file_present :: ExistsSync where
  "file_present path = Inr True"

definition file_absent :: ExistsSync where
  "file_absent path = Inr False"


definition mockResponse :: "bool \<Rightarrow> string \<Rightarrow> string option \<Rightarrow> CommandResponse" where
  "mockResponse ok out err = \<lparr>success = ok, output = out, error = err\<rparr>"

text \<open>An executor whose promise always rejects.\<close>

definition rejecting_executor :: "unit CommandExecutor" where
  "rejecting_executor command logPrefix s = (Inl (ErrorObject ''spawn ENOENT''), s)"



definition overwrite_params :: SetPlistValueParams where
  "overwrite_params =
     \<lparr>plistPath = ''/tmp/Info.plist'', keyPath = ''CFBundleDisplayName'', value = ''New Name'',
      valueType = String_t, createIfMissing = True\<rparr>"

text \<open>The mock of the test ``falls back to Add when Set fails and createIfMissing=true''.\<close>

definition fallback_executor :: "nat CommandExecutor" where
  "fallback_executor command logPrefix printCount =
     (case command of
        [binary, flag, plistCommand, path] \<Rightarrow>
          if plistCommand = ''Print :NSAppTransportSecurity:NSAllowsArbitraryLoads'' then
            (if printCount = 0
               then (Inr (mockResponse False [] (Some ''Entry Does Not Exist'')), printCount + 1)
               else (Inr (mockResponse True ''true'' None), printCount + 1))
          else if plistCommand = ''Set :NSAppTransportSecurity:NSAllowsArbitraryLoads true'' then
            (Inr (mockResponse False [] (Some ''Entry Does Not Exist'')), printCount)
          else if plistCommand = ''Add :NSAppTransportSecurity:NSAllowsArbitraryLoads bool true'' then
            (Inr (mockResponse True [] None), printCount)
          else (Inr (mockResponse False [] (Some ''Unexpected command'')), printCount)
      | _ \<Rightarrow> (Inr (mockResponse False [] (Some ''Unexpected command'')), printCount))"

definition fallback_params :: SetPlistValueParams where
  "fallback_params =
     \<lparr>plistPath = ''/tmp/Info.plist'', keyPath = ''NSAppTransportSecurity:NSAllowsArbitraryLoads'',
      value = ''TRUE'', valueType = Bool_t, createIfMissing = True\<rparr>"

text \<open>The mock of the test ``does not attempt Add fallback for clear non-missing set
  failures''.\<close>

definition mismatch_executor :: "unit CommandExecutor" where
  "mismatch_executor command logPrefix s =
     (case command of
        [binary, flag, plistCommand, path] \<Rightarrow>
          if plistCommand = ''Print :Count'' then (Inr (mockResponse True ''12'' None), s)
          else if plistCommand = ''Set :Count 13'' then
            (Inr (mockResponse False [] (Some ''Type mismatch while setting value'')), s)
          else (Inr (mockResponse False [] (Some ''Unexpected command'')), s)
      | _ \<Rightarrow> (Inr (mockResponse False [] (Some ''Unexpected command'')), s))"

definition mismatch_params :: SetPlistValueParams where
  "mismatch_params =
     \<lparr>plistPath = ''/tmp/Info.plist'', keyPath = ''Count'', value = ''13'',
      valueType = Int_t, createIfMissing = True\<rparr>"

text \<open>An executor on which \<open>Set\<close> finds no entry, \<open>Add\<close> succeeds and every \<open>Print\<close> fails.\<close>

definition unverified_executor :: "unit CommandExecutor" where
  "unverified_executor command logPrefix s =
     (if logPrefix = ''Add plist value'' then (Inr (mockResponse True [] None), s)
      else if logPrefix = ''Set plist value''
        then (Inr (mockResponse False [] (Some ''Entry Does Not Exist'')), s)
        else (Inr (mockResponse False ''File not readable'' None), s))"

definition sample_host :: host where
  "sample_host =
     \<lparr>resolveAxeBinary = Inr None, isXcodemakeBinaryAvailable = Inr False,
      loadManifest = Inl (ErrorObject ''manifest directory not found''),
      process_env = [(''HOME'', ''/Users/dev''), (''XCODEBUILDMCP_DEBUG'', ''1''),
                     (''SHELL'', ''/bin/zsh'')]\<rparr>"


section \<open>Properties of the string helpers and of the key-path parser\<close>

lemma js_trim_empty_iff: "js_trim s = [] \<longleftrightarrow> (\<forall>c \<in> set s. js_whitespace c)"
proof
  assume "js_trim s = []"
  then have all: "\<forall>x \<in> set (dropWhile js_whitespace s). js_whitespace x"
    by (simp add: js_trim_def dropWhile_eq_Nil_conv)
  have "dropWhile js_whitespace s = []"
  proof (rule ccontr)
    assume ne: "dropWhile js_whitespace s \<noteq> []"
    then have "\<not> js_whitespace (hd (dropWhile js_whitespace s))" by (rule hd_dropWhile)
    with all ne show False by (meson hd_in_set)
  qed
  then show "\<forall>c \<in> set s. js_whitespace c" by (simp add: dropWhile_eq_Nil_conv)
next
  assume "\<forall>c \<in> set s. js_whitespace c"
  then have "dropWhile js_whitespace s = []" by (simp add: dropWhile_eq_Nil_conv)
  then show "js_trim s = []" by (simp add: js_trim_def del: dropWhile_eq_Nil_conv)
qed

lemma colon_segments_nonempty: "colon_segments kp \<noteq> []"
  by (induction kp rule: colon_segments.induct) (auto split: list.splits)

lemma joined_Nil: "joined cur [] = [cur]"
  by (simp add: joined_def)

lemma joined_escape: "joined cur (backslash # d # cs) = joined (cur @ [d]) cs"
  using colon_segments_nonempty[of cs] by (simp add: joined_def split: list.splits)

lemma joined_colon: "joined cur (CHR '':'' # cs) = cur # colon_segments cs"
  by (cases cs) (simp_all add: joined_def)

lemma joined_plain: "c \<noteq> backslash \<Longrightarrow> c \<noteq> CHR '':'' \<Longrightarrow> joined cur (c # cs) = joined (cur @ [c]) cs"
  using colon_segments_nonempty[of cs] by (cases cs) (simp_all add: joined_def split: list.splits)

lemma joined_self: "joined [] kp = colon_segments kp"
  using colon_segments_nonempty[of kp] by (simp add: joined_def split: list.splits)

lemma unfinished_escape_step:
  "c \<noteq> backslash \<Longrightarrow> unfinished_escape (c # rest) = unfinished_escape rest"
  by (cases rest) simp_all

lemma parse_loop_char:
  "parseKeyPathLoop kp segs cur False =
     (if \<not> unfinished_escape kp \<and> (\<forall>seg \<in> set (joined cur kp). js_trim seg \<noteq> [])
      then ParseOk (segs @ map js_trim (joined cur kp))
      else ParseError (if (\<exists>seg \<in> set (butlast (joined cur kp)). js_trim seg = [])
                       then ''Key path contains an empty segment.''
                       else if unfinished_escape kp then ''Key path ends with an unfinished escape sequence.''
                       else ''Key path contains an empty segment.''))"
proof (induction "length kp" arbitrary: kp segs cur rule: less_induct)
  case less
  show ?case
  proof (cases kp)
    case Nil
    then show ?thesis by (simp add: joined_Nil)
  next
    case (Cons c rest)
    consider (esc) "c = backslash" | (colon) "c \<noteq> backslash" "c = CHR '':''"
      | (plain) "c \<noteq> backslash" "c \<noteq> CHR '':''" by blast
    then show ?thesis
    proof cases
      case esc
      show ?thesis
      proof (cases rest)
        case Nil
        with esc Cons show ?thesis by (simp add: joined_def)
      next
        case (Cons d cs)
        have step: "parseKeyPathLoop kp segs cur False = parseKeyPathLoop cs segs (cur @ [d]) False"
          using esc Cons \<open>kp = c # rest\<close> by simp
        have "length cs < length kp" using Cons \<open>kp = c # rest\<close> by simp
        from less[OF this, of segs "cur @ [d]"] show ?thesis
          unfolding step using esc Cons \<open>kp = c # rest\<close> by (simp add: joined_escape)
      qed
    next
      case colon
      have step: "parseKeyPathLoop kp segs cur False =
          (if js_trim cur = [] then ParseError ''Key path contains an empty segment.''
           else parseKeyPathLoop rest (segs @ [js_trim cur]) [] False)"
        using colon Cons by simp
      have j: "joined cur kp = cur # joined [] rest"
        using colon Cons by (simp add: joined_colon joined_self)
      have u: "unfinished_escape kp = unfinished_escape rest"
        using colon Cons by (simp add: unfinished_escape_step)
      have ne: "joined [] rest \<noteq> []"
        using colon_segments_nonempty[of rest] by (simp add: joined_self)
      have "length rest < length kp" using Cons by simp
      from less[OF this, of "segs @ [js_trim cur]" "[]"] show ?thesis
        unfolding step j u using ne by auto
    next
      case plain
      have step: "parseKeyPathLoop kp segs cur False = parseKeyPathLoop rest segs (cur @ [c]) False"
        using plain Cons by simp
      have j: "joined cur kp = joined (cur @ [c]) rest"
        using plain Cons by (simp add: joined_plain)
      have u: "unfinished_escape kp = unfinished_escape rest"
        using plain Cons by (simp add: unfinished_escape_step)
      have "length rest < length kp" using Cons by simp
      from less[OF this, of segs "cur @ [c]"] show ?thesis
        unfolding step j u by simp
    qed
  qed
qed

lemma parse_segments_char:
  "parseKeyPathSegments kp =
     (if \<not> unfinished_escape kp \<and> (\<forall>seg \<in> set (colon_segments kp). js_trim seg \<noteq> [])
      then ParseOk (map js_trim (colon_segments kp))
      else ParseError (if (\<exists>seg \<in> set (butlast (colon_segments kp)). js_trim seg = [])
                       then ''Key path contains an empty segment.''
                       else if unfinished_escape kp then ''Key path ends with an unfinished escape sequence.''
                       else ''Key path contains an empty segment.''))"
  unfolding parseKeyPathSegments_def parse_loop_char[of kp "[]" "[]"] joined_self by simp

lemma js_trim_hd: "js_trim s \<noteq> [] \<Longrightarrow> \<not> js_whitespace (hd (js_trim s))"
proof -
  assume ne: "js_trim s \<noteq> []"
  let ?d = "dropWhile js_whitespace s"
  have dne: "?d \<noteq> []"
  proof
    assume "?d = []"
    then have "js_trim s = []" by (simp add: js_trim_def del: dropWhile_eq_Nil_conv)
    with ne show False by simp
  qed
  then have h: "\<not> js_whitespace (hd ?d)" by (rule hd_dropWhile)
  let ?r = "dropWhile js_whitespace (rev ?d)"
  have rne: "?r \<noteq> []" using ne by (simp add: js_trim_def)
  obtain ys where ys: "rev ?d = ys @ ?r"
    by (metis takeWhile_dropWhile_id)
  then have "?d = rev ?r @ rev ys" by (metis rev_append rev_rev_ident)
  then have "hd ?d = hd (rev ?r)" using rne by (metis hd_append2 rev_is_Nil_conv)
  with h show ?thesis by (simp add: js_trim_def)
qed

lemma js_trim_last: "js_trim s \<noteq> [] \<Longrightarrow> \<not> js_whitespace (last (js_trim s))"
proof -
  assume ne: "js_trim s \<noteq> []"
  let ?r = "dropWhile js_whitespace (rev (dropWhile js_whitespace s))"
  have rne: "?r \<noteq> []" using ne by (simp add: js_trim_def)
  then have "\<not> js_whitespace (hd ?r)" by (rule hd_dropWhile)
  then show ?thesis using rne by (simp add: js_trim_def last_rev)
qed

lemma normalize_key_path_char:
  "normalizeKeyPathForPlistBuddy kp =
     (case parseKeyPathSegments kp of
        ParseError e \<Rightarrow> KeyPathError e
      | ParseOk segs \<Rightarrow> KeyPathOk segs ('':'' @ js_join '':'' (map escapeKeySegmentForPlistBuddy segs)))"
  by (simp add: normalizeKeyPathForPlistBuddy_def)

subsection \<open>Key-path escaping\<close>

text \<open>
  Claim C6. The key path \<open>A\:B:C\<close> parses into exactly the segments \<open>A:B\<close> and \<open>C\<close>, and
  re-escaping those segments for PlistBuddy gives exactly \<open>:A\:B:C\<close>. In general a key
  path with a segment that is empty after trimming, or with a backslash that escapes
  nothing at the end, is rejected with a parse error, by the parser and by the
  normalisation built on it.
\<close>

theorem key_path_escaping_round_trip:
  "parseKeyPathSegments (''A'' @ [backslash] @ '':B:C'') = ParseOk [''A:B'', ''C'']
   \<and> '':'' @ js_join '':'' (map escapeKeySegmentForPlistBuddy [''A:B'', ''C'']) = '':A'' @ [backslash] @ '':B:C''
   \<and> normalizeKeyPathForPlistBuddy (''A'' @ [backslash] @ '':B:C'') =
       KeyPathOk [''A:B'', ''C''] ('':A'' @ [backslash] @ '':B:C'')
   \<and> ((\<exists>seg \<in> set (colon_segments kp). js_trim seg = []) \<or> unfinished_escape kp \<longrightarrow>
        (\<exists>e. parseKeyPathSegments kp = ParseError e \<and> normalizeKeyPathForPlistBuddy kp = KeyPathError e))"
proof -
  have trims: "js_trim ''A:B'' = ''A:B''" "js_trim ''C'' = ''C''"
    by (simp_all add: js_trim_def js_whitespace_def)
  have p: "parseKeyPathSegments (''A'' @ [backslash] @ '':B:C'') = ParseOk [''A:B'', ''C'']"
    by (simp add: parseKeyPathSegments_def trims)
  have e: "'':'' @ js_join '':'' (map escapeKeySegmentForPlistBuddy [''A:B'', ''C'']) = '':A'' @ [backslash] @ '':B:C''"
    by (simp add: escapeKeySegmentForPlistBuddy_def replaceAll_def)
  have n: "normalizeKeyPathForPlistBuddy (''A'' @ [backslash] @ '':B:C'') =
       KeyPathOk [''A:B'', ''C''] ('':A'' @ [backslash] @ '':B:C'')"
    unfolding normalize_key_path_char p using e by simp
  have g: "(\<exists>seg \<in> set (colon_segments kp). js_trim seg = []) \<or> unfinished_escape kp \<longrightarrow>
        (\<exists>e. parseKeyPathSegments kp = ParseError e \<and> normalizeKeyPathForPlistBuddy kp = KeyPathError e)"
    unfolding normalize_key_path_char parse_segments_char[of kp] by auto
  from p e n g show ?thesis by blast
qed

theorem key_path_escaping_round_trip_witness:
  "((\<exists>seg \<in> set (colon_segments ''a::b''). js_trim seg = []) \<or> unfinished_escape ''a::b'')
   \<and> (\<exists>e. parseKeyPathSegments ''a::b'' = ParseError e \<and> normalizeKeyPathForPlistBuddy ''a::b'' = KeyPathError e)
   \<and> ((\<exists>seg \<in> set (colon_segments (''a:b'' @ [backslash])). js_trim seg = []) \<or> unfinished_escape (''a:b'' @ [backslash]))
   \<and> (\<exists>e. parseKeyPathSegments (''a:b'' @ [backslash]) = ParseError e)"
proof -
  have h1: "(\<exists>seg \<in> set (colon_segments ''a::b''). js_trim seg = []) \<or> unfinished_escape ''a::b''"
    by (simp add: js_trim_def)
  have h2: "(\<exists>seg \<in> set (colon_segments (''a:b'' @ [backslash])). js_trim seg = []) \<or> unfinished_escape (''a:b'' @ [backslash])"
    by simp
  from h1 key_path_escaping_round_trip[of "''a::b''"]
  have r1: "\<exists>e. parseKeyPathSegments ''a::b'' = ParseError e \<and> normalizeKeyPathForPlistBuddy ''a::b'' = KeyPathError e"
    by (elim conjE) (erule mp)
  from h2 key_path_escaping_round_trip[of "''a:b'' @ [backslash]"]
  have r2: "\<exists>e. parseKeyPathSegments (''a:b'' @ [backslash]) = ParseError e \<and> normalizeKeyPathForPlistBuddy (''a:b'' @ [backslash]) = KeyPathError e"
    by (elim conjE) (erule mp)
  from r2 have r2': "\<exists>e. parseKeyPathSegments (''a:b'' @ [backslash]) = ParseError e" by (elim exE conjE) (rule exI)
  from h1 r1 h2 r2' show ?thesis by (intro conjI)
qed

subsection \<open>Trimming of key-path segments\<close>

text \<open>
  Claim C10. Every segment of an accepted key path is the whitespace-trimmed text between
  two unescaped colons: it is not empty and neither begins nor ends with whitespace, so
  a key whose name begins or ends with a space cannot be addressed, and the trimmed
  segments are the ones re-escaped for PlistBuddy. A key path with a segment made of
  whitespace only is rejected, with the message of an empty segment unless the path also
  ends in an unfinished escape.
\<close>

theorem key_path_segments_trimmed:
  "(parseKeyPathSegments kp = ParseOk segs \<longrightarrow>
      segs = map js_trim (colon_segments kp)
      \<and> (\<forall>s \<in> set segs. s \<noteq> [] \<and> \<not> js_whitespace (hd s) \<and> \<not> js_whitespace (last s))
      \<and> normalizeKeyPathForPlistBuddy kp =
          KeyPathOk segs ('':'' @ js_join '':'' (map escapeKeySegmentForPlistBuddy (map js_trim (colon_segments kp)))))
   \<and> ((\<exists>seg \<in> set (colon_segments kp). \<forall>c \<in> set seg. js_whitespace c) \<longrightarrow>
        (\<exists>e. parseKeyPathSegments kp = ParseError e)
        \<and> (\<not> unfinished_escape kp \<longrightarrow>
             parseKeyPathSegments kp = ParseError ''Key path contains an empty segment.''))"
proof (intro conjI impI)
  assume ok: "parseKeyPathSegments kp = ParseOk segs"
  then have good: "\<not> unfinished_escape kp \<and> (\<forall>seg \<in> set (colon_segments kp). js_trim seg \<noteq> [])"
    unfolding parse_segments_char[of kp] by (simp split: if_splits)
  with ok show segs: "segs = map js_trim (colon_segments kp)"
    unfolding parse_segments_char[of kp] by simp
  show "\<forall>s \<in> set segs. s \<noteq> [] \<and> \<not> js_whitespace (hd s) \<and> \<not> js_whitespace (last s)"
    using good segs js_trim_hd js_trim_last by auto
  show "normalizeKeyPathForPlistBuddy kp =
          KeyPathOk segs ('':'' @ js_join '':'' (map escapeKeySegmentForPlistBuddy (map js_trim (colon_segments kp))))"
    unfolding normalize_key_path_char ok using segs by simp
next
  assume "\<exists>seg \<in> set (colon_segments kp). \<forall>c \<in> set seg. js_whitespace c"
  then have bad: "\<exists>seg \<in> set (colon_segments kp). js_trim seg = []"
    by (simp add: js_trim_empty_iff)
  then show "\<exists>e. parseKeyPathSegments kp = ParseError e"
    unfolding parse_segments_char[of kp] by auto
  assume "\<not> unfinished_escape kp"
  with bad show "parseKeyPathSegments kp = ParseError ''Key path contains an empty segment.''"
    unfolding parse_segments_char[of kp] by auto
qed

theorem key_path_segments_trimmed_witness:
  "parseKeyPathSegments ('' a : '' @ [backslash] @ '' b '') = ParseOk [''a'', ''b'']
   \<and> [''a'', ''b''] = map js_trim (colon_segments ('' a : '' @ [backslash] @ '' b ''))
   \<and> (\<exists>seg \<in> set (colon_segments ''a: :b''). \<forall>c \<in> set seg. js_whitespace c)
   \<and> \<not> unfinished_escape ''a: :b''
   \<and> parseKeyPathSegments ''a: :b'' = ParseError ''Key path contains an empty segment.''"
proof -
  have t: "js_trim '' a '' = ''a''" "js_trim ''  b '' = ''b''"
    by (simp_all add: js_trim_def js_whitespace_def)
  have p: "parseKeyPathSegments ('' a : '' @ [backslash] @ '' b '') = ParseOk [''a'', ''b'']"
    by (simp add: parseKeyPathSegments_def t)
  have w: "\<exists>seg \<in> set (colon_segments ''a: :b''). \<forall>c \<in> set seg. js_whitespace c"
    by (simp add: js_whitespace_def)
  have u: "\<not> unfinished_escape ''a: :b''" by simp
  note ok = key_path_segments_trimmed[of "'' a : '' @ [backslash] @ '' b ''" "[''a'', ''b'']", THEN conjunct1, rule_format, OF p]
  note bad = key_path_segments_trimmed[of "''a: :b''" "[]", THEN conjunct2, rule_format, OF w]
  from p ok[THEN conjunct1] w u bad[THEN conjunct2, rule_format, OF u]
  show ?thesis by (intro conjI)
qed

section \<open>Properties of the plist tool\<close>

lemma and_then_returns: "and_then (returns x) f = f x"
  by (rule ext) (simp add: and_then_def returns_def)

lemma and_then_Inr: "m w = (Inr x, w') \<Longrightarrow> and_then m f w = f x w'"
  by (simp add: and_then_def)

lemma and_then_Inl: "m w = (Inl e, w') \<Longrightarrow> and_then m f w = (Inl e, w')"
  by (simp add: and_then_def)

lemma await_executor_outcome:
  "executor command logPrefix (exec_state w) = (outcome, s') \<Longrightarrow>
   await_executor executor command logPrefix w =
     (outcome, \<lparr>exec_state = s', calls = calls w @ [ExecutorCall command logPrefix]\<rparr>)"
  by (simp add: await_executor_def)

lemma runPlistBuddyCommand_outcome:
  "executor [''/usr/libexec/PlistBuddy'', ''-c'', plistCommand, path] logPrefix (exec_state w) = (outcome, s') \<Longrightarrow>
   runPlistBuddyCommand plistCommand path executor logPrefix w =
     (outcome, \<lparr>exec_state = s', calls = calls w @ [plistBuddyCall plistCommand path logPrefix]\<rparr>)"
  by (cases outcome)
     (simp_all add: runPlistBuddyCommand_def and_then_def await_executor_def returns_def plistBuddyCall_def)

lemma readPreviousValue_outcome:
  "executor [''/usr/libexec/PlistBuddy'', ''-c'', ''Print '' @ p, plistPath params]
     ''Read existing plist value'' (exec_state w) = (outcome, s') \<Longrightarrow>
   readPreviousValue params p executor w =
     (Inr (case outcome of
             Inl e \<Rightarrow> None
           | Inr r \<Rightarrow> if success r then Some (normalizeDisplayedValue (output r) (valueType params)) else None),
      \<lparr>exec_state = s',
       calls = calls w @ [plistBuddyCall (''Print '' @ p) (plistPath params) ''Read existing plist value'']\<rparr>)"
  by (cases outcome)
     (simp_all add: readPreviousValue_def try_catch_def and_then_def returns_def
        runPlistBuddyCommand_outcome)

lemma normalized_key_path_nonempty:
  "normalizeKeyPathForPlistBuddy kp = KeyPathOk segs p \<Longrightarrow> p \<noteq> []"
  by (auto simp: normalizeKeyPathForPlistBuddy_def split: KeyPathParseResult.splits)

lemma logic_after_preflight:
  assumes "existsSync (plistPath params) = Inr True"
    and "normalizeKeyPathForPlistBuddy (keyPath params) = KeyPathOk segs p"
    and "normalizeValueForType fin (value params) (valueType params) = ValueOk nv cv"
  shows "set_plist_valueLogic fin params executor existsSync =
     and_then (readPreviousValue params p executor)
       (\<lambda>previousValue.
          and_then (runPlistBuddyCommand (''Set '' @ p @ '' '' @ cv) (plistPath params) executor ''Set plist value'')
            (\<lambda>setResult.
               and_then (addFallback params p cv executor setResult)
                 (\<lambda>early. case early of
                             Some response \<Rightarrow> returns response
                           | None \<Rightarrow> verifyAndReport params p executor previousValue)))"
  using assms normalized_key_path_nonempty[OF assms(2)]
  by (simp add: set_plist_valueLogic_def call_existsSync_def
        and_then_def[of "call_existsSync existsSync (plistPath params)"] fun_eq_iff)

lemma normalize_value_error:
  "validateValueForType fin v t \<noteq> None \<Longrightarrow> \<exists>e. normalizeValueForType fin v t = ValueError e"
  by (auto simp: normalizeValueForType_def)

subsection \<open>Pre-flight checks\<close>

text \<open>
  Claim C5. When the plist file does not exist (\<open>existsSync\<close> returns \<open>false\<close>), or it
  exists and the key path does not parse or the value fails the literal grammar of its
  value type (\<open>validateValueForType\<close> returns a message), \<open>set_plist_valueLogic\<close> returns a
  structured error response and leaves the world as it found it: no command reaches the
  executor, whose state and call log are unchanged.
\<close>

theorem preflight_failure_runs_no_command:
  assumes "existsSync (plistPath params) = Inr False
           \<or> existsSync (plistPath params) = Inr True
             \<and> ((\<exists>e. parseKeyPathSegments (keyPath params) = ParseError e)
                \<or> validateValueForType fin (value params) (valueType params) \<noteq> None)"
  shows "\<exists>message details.
           set_plist_valueLogic fin params executor existsSync w = (Inr (ErrorResponse message details), w)"
proof (cases "existsSync (plistPath params) = Inr False")
  case True
  then show ?thesis
    by (simp add: set_plist_valueLogic_def and_then_def call_existsSync_def returns_def)
next
  case False
  with assms have exists: "existsSync (plistPath params) = Inr True"
    and bad: "(\<exists>e. parseKeyPathSegments (keyPath params) = ParseError e)
                \<or> validateValueForType fin (value params) (valueType params) \<noteq> None"
    by blast+
  show ?thesis
  proof (cases "normalizeKeyPathForPlistBuddy (keyPath params)")
    case (KeyPathError e)
    with exists show ?thesis
      by (simp add: set_plist_valueLogic_def and_then_def call_existsSync_def returns_def)
  next
    case (KeyPathOk segs p)
    then have parsed: "\<forall>e. parseKeyPathSegments (keyPath params) \<noteq> ParseError e"
      by (auto simp: normalizeKeyPathForPlistBuddy_def)
    with bad have "validateValueForType fin (value params) (valueType params) \<noteq> None"
      by blast
    then obtain e where "normalizeValueForType fin (value params) (valueType params) = ValueError e"
      using normalize_value_error by blast
    with exists KeyPathOk show ?thesis
      by (simp add: set_plist_valueLogic_def and_then_def call_existsSync_def returns_def)
  qed
qed

theorem preflight_failure_runs_no_command_witness:
  "file_absent (plistPath overwrite_params) = Inr False
   \<and> (\<exists>message details.
         set_plist_valueLogic finite_always overwrite_params rejecting_executor file_absent (fresh ()) =
           (Inr (ErrorResponse message details), fresh ()))
   \<and> validateValueForType finite_always ''yes'' Bool_t \<noteq> None
   \<and> (\<exists>message details.
         set_plist_valueLogic finite_always (overwrite_params\<lparr>value := ''yes'', valueType := Bool_t\<rparr>)
           rejecting_executor file_present (fresh ()) =
           (Inr (ErrorResponse message details), fresh ()))"
proof -
  have absent: "file_absent (plistPath overwrite_params) = Inr False"
    by (simp add: file_absent_def)
  then have h: "file_absent (plistPath overwrite_params) = Inr False
      \<or> file_absent (plistPath overwrite_params) = Inr True
        \<and> ((\<exists>e. parseKeyPathSegments (keyPath overwrite_params) = ParseError e)
           \<or> validateValueForType finite_always (value overwrite_params) (valueType overwrite_params) \<noteq> None)"
    by (rule disjI1)
  have t: "js_trim ''yes'' = ''yes''"
    by (simp add: js_trim_def js_whitespace_def)
  have l: "toLowerCase ''yes'' = ''yes''"
    by (simp add: toLowerCase_def js_lower_char_def upper_letters_def lower_letters_def)
  have bad: "validateValueForType finite_always ''yes'' Bool_t \<noteq> None"
    by (simp add: validateValueForType_def t l)
  let ?params = "overwrite_params\<lparr>value := ''yes'', valueType := Bool_t\<rparr>"
  from bad have h': "file_present (plistPath ?params) = Inr False
      \<or> file_present (plistPath ?params) = Inr True
        \<and> ((\<exists>e. parseKeyPathSegments (keyPath ?params) = ParseError e)
           \<or> validateValueForType finite_always (value ?params) (valueType ?params) \<noteq> None)"
    by (simp add: file_present_def)
  from absent bad
    preflight_failure_runs_no_command[where existsSync = file_absent and params = overwrite_params
      and fin = finite_always and executor = rejecting_executor and w = "fresh ()", OF h]
    preflight_failure_runs_no_command[where existsSync = file_present and params = ?params
      and fin = finite_always and executor = rejecting_executor and w = "fresh ()", OF h']
  show ?thesis by (intro conjI)
qed

subsection \<open>Overwriting an existing key\<close>

lemma js_includes_here: "js_includes (n @ b) n"
proof (cases "n @ b")
  case Nil
  then show ?thesis by simp
next
  case (Cons c cs)
  have "prefix n (n @ b)" by simp
  with Cons show ?thesis by simp
qed

lemma js_includes_append: "js_includes (a @ n @ b) n"
  by (induction a) (auto simp: js_includes_here)

lemma verifyAndReport_outcome:
  "executor [''/usr/libexec/PlistBuddy'', ''-c'', ''Print '' @ p, plistPath params]
     ''Verify plist value'' (exec_state w) = (Inr r, s') \<Longrightarrow>
   verifyAndReport params p executor previousValue w =
     (Inr (if \<not> success r then
             ErrorResponse ''Failed to verify plist write''
               (''verify_error: '' @ getCommandErrorText (Some (output r)) (error r))
           else
             TextResponse
               (''Set plist key '' @ [squote] @ keyPath params @ [squote] @ '' in '' @ [squote] @
                plistPath params @ [squote] @ '' to '' @ [squote] @
                normalizeDisplayedValue (output r) (valueType params) @ [squote] @ ''.'' @
                (case previousValue of
                   Some previous \<Rightarrow> '' Previous value: '' @ previous @ ''.''
                 | None \<Rightarrow> []))),
      \<lparr>exec_state = s',
       calls = calls w @ [plistBuddyCall (''Print '' @ p) (plistPath params) ''Verify plist value'']\<rparr>)"
  by (simp add: verifyAndReport_def and_then_def returns_def runPlistBuddyCommand_outcome)

lemma addFallback_success:
  "success setResult \<Longrightarrow> addFallback params p cv executor setResult w = (Inr None, w)"
  by (simp add: addFallback_def returns_def)


lemma overwrite_key_path:
  "normalizeKeyPathForPlistBuddy (keyPath overwrite_params) =
     KeyPathOk [''CFBundleDisplayName''] '':CFBundleDisplayName''"
proof -
  have t: "js_trim ''CFBundleDisplayName'' = ''CFBundleDisplayName''"
    by (simp add: js_trim_def js_whitespace_def)
  have p: "parseKeyPathSegments ''CFBundleDisplayName'' = ParseOk [''CFBundleDisplayName'']"
    by (simp add: parseKeyPathSegments_def t)
  show ?thesis
    by (simp add: overwrite_params_def normalizeKeyPathForPlistBuddy_def p
          escapeKeySegmentForPlistBuddy_def replaceAll_def)
qed

lemma overwrite_value:
  "normalizeValueForType finite_always (value overwrite_params) (valueType overwrite_params) =
     ValueOk ''New Name'' ([dquote] @ ''New Name'' @ [dquote])"
  by (simp add: overwrite_params_def normalizeValueForType_def validateValueForType_def
        quotePlistBuddyString_def)


subsection \<open>The \<open>Add\<close> fallback\<close>

lemma addFallback_refused:
  assumes "\<not> success r"
    and "\<not> (createIfMissing params \<and> classifySetFailure (getCommandErrorText (Some (output r)) (error r)) \<noteq> NonMissing)"
  shows "addFallback params p cv executor r w =
     (Inr (Some (ErrorResponse ''Failed to set plist value''
                   (''set_error: '' @ getCommandErrorText (Some (output r)) (error r)))), w)"
  using assms by (auto simp add: addFallback_def returns_def Let_def)

lemma addFallback_attempt:
  assumes "\<not> success r"
    and "createIfMissing params"
    and "classifySetFailure (getCommandErrorText (Some (output r)) (error r)) \<noteq> NonMissing"
    and "executor [''/usr/libexec/PlistBuddy'', ''-c'',
                   ''Add '' @ p @ '' '' @ valueTypeName (valueType params) @ '' '' @ cv, plistPath params]
           ''Add plist value'' (exec_state w) = (outcome, s')"
  shows "addFallback params p cv executor r w =
     ((case outcome of
         Inl e \<Rightarrow> Inl e
       | Inr a \<Rightarrow>
           Inr (if \<not> success a then
                  Some (ErrorResponse ''Failed to set plist value''
                    (js_join [newline]
                       [''set_error: '' @ getCommandErrorText (Some (output r)) (error r),
                        ''add_error: '' @ getCommandErrorText (Some (output a)) (error a)]))
                else None)),
      \<lparr>exec_state = s',
       calls = calls w @ [plistBuddyCall (''Add '' @ p @ '' '' @ valueTypeName (valueType params) @ '' '' @ cv)
                            (plistPath params) ''Add plist value'']\<rparr>)"
proof -
  have run: "runPlistBuddyCommand (''Add '' @ p @ '' '' @ valueTypeName (valueType params) @ '' '' @ cv)
               (plistPath params) executor ''Add plist value'' w =
             (outcome, \<lparr>exec_state = s',
       calls = calls w @ [plistBuddyCall (''Add '' @ p @ '' '' @ valueTypeName (valueType params) @ '' '' @ cv)
                            (plistPath params) ''Add plist value'']\<rparr>)"
    using assms(4) by (rule runPlistBuddyCommand_outcome)
  show ?thesis
    unfolding addFallback_def Let_def using assms(1-3)
    apply (cases outcome)
     apply (simp_all only: and_then_def run prod.case sum.case if_True if_False simp_thms)
    apply (auto simp add: returns_def)
    done
qed

lemma verifyAndReport_calls:
  "calls (snd (verifyAndReport params p executor previousValue w)) =
     calls w @ [plistBuddyCall (''Print '' @ p) (plistPath params) ''Verify plist value'']"
proof -
  obtain outcome s' where ex: "executor [''/usr/libexec/PlistBuddy'', ''-c'', ''Print '' @ p, plistPath params]
     ''Verify plist value'' (exec_state w) = (outcome, s')"
    by (cases "executor [''/usr/libexec/PlistBuddy'', ''-c'', ''Print '' @ p, plistPath params]
     ''Verify plist value'' (exec_state w)")
  show ?thesis
    unfolding verifyAndReport_def
    by (cases outcome)
       (simp_all only: and_then_def runPlistBuddyCommand_outcome[where executor = executor, OF ex] prod.case sum.case returns_def
          snd_conv world.simps simp_thms split: if_splits)
qed

lemma logic_after_set:
  assumes "existsSync (plistPath params) = Inr True"
    and "normalizeKeyPathForPlistBuddy (keyPath params) = KeyPathOk segs p"
    and "normalizeValueForType fin (value params) (valueType params) = ValueOk nv cv"
    and read: "executor [''/usr/libexec/PlistBuddy'', ''-c'', ''Print '' @ p, plistPath params]
                 ''Read existing plist value'' s0 = (o1, s1)"
    and set: "executor [''/usr/libexec/PlistBuddy'', ''-c'', ''Set '' @ p @ '' '' @ cv, plistPath params]
                 ''Set plist value'' s1 = (Inr r, s2)"
  shows "set_plist_valueLogic fin params executor existsSync (fresh s0) =
     and_then (addFallback params p cv executor r)
       (\<lambda>early. case early of
                   Some response \<Rightarrow> returns response
                 | None \<Rightarrow> verifyAndReport params p executor
                     (case o1 of
                        Inl e \<Rightarrow> None
                      | Inr r1 \<Rightarrow> if success r1
                                 then Some (normalizeDisplayedValue (output r1) (valueType params))
                                 else None))
       \<lparr>exec_state = s2,
        calls = [plistBuddyCall (''Print '' @ p) (plistPath params) ''Read existing plist value'',
                 plistBuddyCall (''Set '' @ p @ '' '' @ cv) (plistPath params) ''Set plist value'']\<rparr>"
proof -
  let ?w1 = "\<lparr>exec_state = s1,
              calls = [plistBuddyCall (''Print '' @ p) (plistPath params) ''Read existing plist value'']\<rparr>"
  let ?w2 = "\<lparr>exec_state = s2,
              calls = [plistBuddyCall (''Print '' @ p) (plistPath params) ''Read existing plist value'',
                       plistBuddyCall (''Set '' @ p @ '' '' @ cv) (plistPath params) ''Set plist value'']\<rparr>"
  let ?prev = "case o1 of
                 Inl e \<Rightarrow> None
               | Inr r1 \<Rightarrow> if success r1
                          then Some (normalizeDisplayedValue (output r1) (valueType params))
                          else None"
  have s1: "readPreviousValue params p executor (fresh s0) = (Inr ?prev, ?w1)"
    using readPreviousValue_outcome[of executor p params "fresh s0" o1 s1] read
    by (simp add: fresh_def)
  have s2: "runPlistBuddyCommand (''Set '' @ p @ '' '' @ cv) (plistPath params) executor ''Set plist value'' ?w1
              = (Inr r, ?w2)"
    using runPlistBuddyCommand_outcome[of executor "''Set '' @ p @ '' '' @ cv" "plistPath params"
            "''Set plist value''" ?w1 "Inr r" s2] set
    by simp
  show ?thesis
    unfolding logic_after_preflight[where existsSync = existsSync and fin = fin, OF assms(1-3)]
    by (simp only: and_then_def[of "readPreviousValue params p executor"]
          and_then_def[of "runPlistBuddyCommand (''Set '' @ p @ '' '' @ cv) (plistPath params) executor ''Set plist value''"]
          s1 s2 prod.case sum.case)
qed

text \<open>
  Claim C2. When the pre-flight checks pass and the \<open>Set\<close> command fails (its promise
  resolves with \<open>success = false\<close>), an \<open>Add\<close> command is attempted if and only if
  \<open>createIfMissing\<close> is true and the failure text is not classified as non-missing. With
  \<open>createIfMissing = false\<close> or a non-missing classification the tool returns the error
  \<open>set_error: ...\<close> at once: the log holds the read and the \<open>Set\<close> only. With
  \<open>createIfMissing = true\<close> and a missing-key or unknown classification, which are the two
  classifications other than non-missing, the third command is the \<open>Add\<close>.
\<close>

theorem add_fallback_policy:
  assumes "existsSync (plistPath params) = Inr True"
    and "normalizeKeyPathForPlistBuddy (keyPath params) = KeyPathOk segs p"
    and "normalizeValueForType fin (value params) (valueType params) = ValueOk nv cv"
    and read: "executor [''/usr/libexec/PlistBuddy'', ''-c'', ''Print '' @ p, plistPath params]
                 ''Read existing plist value'' s0 = (o1, s1)"
    and set: "executor [''/usr/libexec/PlistBuddy'', ''-c'', ''Set '' @ p @ '' '' @ cv, plistPath params]
                 ''Set plist value'' s1 = (Inr r, s2)"
    and failed: "\<not> success r"
    and run: "set_plist_valueLogic fin params executor existsSync (fresh s0) = (result, w')"
    and failure: "failure = getCommandErrorText (Some (output r)) (error r)"
    and readCall: "readCall = plistBuddyCall (''Print '' @ p) (plistPath params) ''Read existing plist value''"
    and setCall: "setCall = plistBuddyCall (''Set '' @ p @ '' '' @ cv) (plistPath params) ''Set plist value''"
    and addCall: "addCall = plistBuddyCall (''Add '' @ p @ '' '' @ valueTypeName (valueType params) @ '' '' @ cv)
                              (plistPath params) ''Add plist value''"
  shows "((\<exists>command. ExecutorCall command ''Add plist value'' \<in> set (calls w')) \<longleftrightarrow>
            createIfMissing params \<and> classifySetFailure failure \<noteq> NonMissing)
       \<and> (createIfMissing params \<and> classifySetFailure failure \<noteq> NonMissing \<longrightarrow>
            take 3 (calls w') = [readCall, setCall, addCall])
       \<and> (\<not> createIfMissing params \<or> classifySetFailure failure = NonMissing \<longrightarrow>
            result = Inr (ErrorResponse ''Failed to set plist value'' (''set_error: '' @ failure))
            \<and> js_includes (''set_error: '' @ failure) ''set_error:''
            \<and> calls w' = [readCall, setCall]
            \<and> exec_state w' = s2)
       \<and> (classifySetFailure failure = MissingKey \<or> classifySetFailure failure = Unknown \<longleftrightarrow>
            classifySetFailure failure \<noteq> NonMissing)"
proof -
  let ?w2 = "\<lparr>exec_state = s2, calls = [readCall, setCall]\<rparr>"
  let ?K = "\<lambda>early. case early of
                   Some response \<Rightarrow> returns response
                 | None \<Rightarrow> verifyAndReport params p executor
                     (case o1 of
                        Inl e \<Rightarrow> None
                      | Inr r1 \<Rightarrow> if success r1
                                 then Some (normalizeDisplayedValue (output r1) (valueType params))
                                 else None)"
  have after: "and_then (addFallback params p cv executor r) ?K ?w2 = (result, w')"
    using logic_after_set[where existsSync = existsSync and fin = fin and executor = executor,
            OF assms(1-3) read set] run
    unfolding readCall setCall by simp
  have classes: "classifySetFailure failure = MissingKey \<or> classifySetFailure failure = Unknown \<longleftrightarrow>
            classifySetFailure failure \<noteq> NonMissing"
    by (cases "classifySetFailure failure") simp_all
  have marker: "js_includes (''set_error: '' @ failure) ''set_error:''"
    using js_includes_append[of "[]" "''set_error:''" "'' '' @ failure"] by simp
  have distinct_prefixes: "readCall \<noteq> ExecutorCall command ''Add plist value''"
      "setCall \<noteq> ExecutorCall command ''Add plist value''" for command
    unfolding readCall setCall plistBuddyCall_def by simp_all
  show ?thesis
  proof (cases "createIfMissing params \<and> classifySetFailure failure \<noteq> NonMissing")
    case False
    have "addFallback params p cv executor r ?w2 =
            (Inr (Some (ErrorResponse ''Failed to set plist value'' (''set_error: '' @ failure))), ?w2)"
      unfolding failure using failed False[unfolded failure] by (rule addFallback_refused)
    with after have res: "result = Inr (ErrorResponse ''Failed to set plist value'' (''set_error: '' @ failure))"
      and w': "w' = ?w2"
      by (simp_all add: and_then_def returns_def)
    from w' have no_add: "\<not> (\<exists>command. ExecutorCall command ''Add plist value'' \<in> set (calls w'))"
      using distinct_prefixes by auto
    from False res w' no_add classes marker show ?thesis by auto
  next
    case True
    obtain oc s3 where add: "executor [''/usr/libexec/PlistBuddy'', ''-c'',
                   ''Add '' @ p @ '' '' @ valueTypeName (valueType params) @ '' '' @ cv, plistPath params]
           ''Add plist value'' (exec_state ?w2) = (oc, s3)"
      by (cases "executor [''/usr/libexec/PlistBuddy'', ''-c'',
                   ''Add '' @ p @ '' '' @ valueTypeName (valueType params) @ '' '' @ cv, plistPath params]
           ''Add plist value'' (exec_state ?w2)")
    let ?w3 = "\<lparr>exec_state = s3, calls = [readCall, setCall, addCall]\<rparr>"
    have fb: "addFallback params p cv executor r ?w2 =
       ((case oc of
         Inl e \<Rightarrow> Inl e
       | Inr a \<Rightarrow>
           Inr (if \<not> success a then
                  Some (ErrorResponse ''Failed to set plist value''
                    (js_join [newline]
                       [''set_error: '' @ getCommandErrorText (Some (output r)) (error r),
                        ''add_error: '' @ getCommandErrorText (Some (output a)) (error a)]))
                else None)), ?w3)"
      using addFallback_attempt[where executor = executor and params = params and w = ?w2, OF failed _ _ add]
        True[unfolded failure] unfolding addCall by simp
    have "\<exists>rest. calls w' = [readCall, setCall, addCall] @ rest"
    proof (cases oc)
      case (Inl e)
      with fb after have "w' = ?w3" by (simp add: and_then_def)
      then show ?thesis by simp
    next
      case (Inr a)
      show ?thesis
      proof (cases "success a")
        case False
        with Inr fb after have "w' = ?w3" by (simp add: and_then_def returns_def)
        then show ?thesis by simp
      next
        case True
        with Inr fb after have vr: "verifyAndReport params p executor
                     (case o1 of
                        Inl e \<Rightarrow> None
                      | Inr r1 \<Rightarrow> if success r1
                                 then Some (normalizeDisplayedValue (output r1) (valueType params))
                                 else None) ?w3 = (result, w')"
          by (simp add: and_then_def)
        have "calls (snd (verifyAndReport params p executor
                     (case o1 of
                        Inl e \<Rightarrow> None
                      | Inr r1 \<Rightarrow> if success r1
                                 then Some (normalizeDisplayedValue (output r1) (valueType params))
                                 else None) ?w3)) =
              calls ?w3 @ [plistBuddyCall (''Print '' @ p) (plistPath params) ''Verify plist value'']"
          by (rule verifyAndReport_calls)
        then show ?thesis unfolding vr by simp
      qed
    qed
    then obtain rest where calls: "calls w' = [readCall, setCall, addCall] @ rest" by blast
    then have t3: "take 3 (calls w') = [readCall, setCall, addCall]" by simp
    have "ExecutorCall [''/usr/libexec/PlistBuddy'', ''-c'',
                   ''Add '' @ p @ '' '' @ valueTypeName (valueType params) @ '' '' @ cv, plistPath params]
           ''Add plist value'' \<in> set (calls w')"
      using calls unfolding addCall plistBuddyCall_def by simp
    then have some_add: "\<exists>command. ExecutorCall command ''Add plist value'' \<in> set (calls w')" by blast
    from True t3 some_add classes show ?thesis by simp
  qed
qed

lemma mismatch_key_path:
  "normalizeKeyPathForPlistBuddy (keyPath mismatch_params) = KeyPathOk [''Count''] '':Count''"
proof -
  have t: "js_trim ''Count'' = ''Count''"
    by (simp add: js_trim_def js_whitespace_def)
  have p: "parseKeyPathSegments ''Count'' = ParseOk [''Count'']"
    by (simp add: parseKeyPathSegments_def t)
  show ?thesis
    by (simp add: mismatch_params_def normalizeKeyPathForPlistBuddy_def p
          escapeKeySegmentForPlistBuddy_def replaceAll_def)
qed

lemma mismatch_value:
  "normalizeValueForType finite_always (value mismatch_params) (valueType mismatch_params) =
     ValueOk ''13'' ''13''"
proof -
  have t: "js_trim ''13'' = ''13''"
    by (simp add: js_trim_def js_whitespace_def)
  have m: "rx_test int_pattern ''13''"
    by (simp add: rx_test_def int_pattern_def Opt_def Plus_def sign_def digit_def)
  show ?thesis
    by (simp add: mismatch_params_def normalizeValueForType_def validateValueForType_def t m)
qed

lemma mismatch_failure:
  "getCommandErrorText (Some []) (Some ''Type mismatch while setting value'') =
     ''Type mismatch while setting value''"
  "classifySetFailure ''Type mismatch while setting value'' = NonMissing"
proof -
  show "getCommandErrorText (Some []) (Some ''Type mismatch while setting value'') =
     ''Type mismatch while setting value''"
    by (simp add: getCommandErrorText_def js_trim_def js_whitespace_def)
  have l: "toLowerCase ''Type mismatch while setting value'' = ''type mismatch while setting value''"
    by (simp add: toLowerCase_def js_lower_char_def upper_letters_def lower_letters_def)
  show "classifySetFailure ''Type mismatch while setting value'' = NonMissing"
    unfolding classifySetFailure_def l Let_def by simp
qed

lemma fallback_key_path:
  "normalizeKeyPathForPlistBuddy (keyPath fallback_params) =
     KeyPathOk [''NSAppTransportSecurity'', ''NSAllowsArbitraryLoads'']
       '':NSAppTransportSecurity:NSAllowsArbitraryLoads''"
proof -
  have t: "js_trim ''NSAppTransportSecurity'' = ''NSAppTransportSecurity''"
      "js_trim ''NSAllowsArbitraryLoads'' = ''NSAllowsArbitraryLoads''"
    by (simp_all add: js_trim_def js_whitespace_def)
  have p: "parseKeyPathSegments ''NSAppTransportSecurity:NSAllowsArbitraryLoads'' =
             ParseOk [''NSAppTransportSecurity'', ''NSAllowsArbitraryLoads'']"
    by (simp add: parseKeyPathSegments_def t)
  show ?thesis
    by (simp add: fallback_params_def normalizeKeyPathForPlistBuddy_def p
          escapeKeySegmentForPlistBuddy_def replaceAll_def)
qed

lemma fallback_value:
  "normalizeValueForType finite_always (value fallback_params) (valueType fallback_params) =
     ValueOk ''true'' ''true''"
proof -
  have t: "js_trim ''TRUE'' = ''TRUE''"
    by (simp add: js_trim_def js_whitespace_def)
  have l: "toLowerCase ''TRUE'' = ''true''"
    by (simp add: toLowerCase_def js_lower_char_def upper_letters_def lower_letters_def)
  show ?thesis
    by (simp add: fallback_params_def normalizeValueForType_def validateValueForType_def t l)
qed

lemma missing_failure:
  "getCommandErrorText (Some []) (Some ''Entry Does Not Exist'') = ''Entry Does Not Exist''"
  "classifySetFailure ''Entry Does Not Exist'' = MissingKey"
proof -
  show "getCommandErrorText (Some []) (Some ''Entry Does Not Exist'') = ''Entry Does Not Exist''"
    by (simp add: getCommandErrorText_def js_trim_def js_whitespace_def)
  have l: "toLowerCase ''Entry Does Not Exist'' = ''entry does not exist''"
    by (simp add: toLowerCase_def js_lower_char_def upper_letters_def lower_letters_def)
  show "classifySetFailure ''Entry Does Not Exist'' = MissingKey"
    unfolding classifySetFailure_def l Let_def by simp
qed

theorem add_fallback_policy_witness:
  "createIfMissing mismatch_params
   \<and> classifySetFailure ''Type mismatch while setting value'' = NonMissing
   \<and> fst (set_plist_valueLogic finite_always mismatch_params mismatch_executor file_present (fresh ())) =
        Inr (ErrorResponse ''Failed to set plist value'' ''set_error: Type mismatch while setting value'')
   \<and> calls (snd (set_plist_valueLogic finite_always mismatch_params mismatch_executor file_present (fresh ()))) =
        [plistBuddyCall ''Print :Count'' ''/tmp/Info.plist'' ''Read existing plist value'',
         plistBuddyCall ''Set :Count 13'' ''/tmp/Info.plist'' ''Set plist value'']
   \<and> createIfMissing fallback_params
   \<and> classifySetFailure ''Entry Does Not Exist'' = MissingKey
   \<and> take 3 (calls (snd (set_plist_valueLogic finite_always fallback_params fallback_executor file_present (fresh 0)))) =
        [plistBuddyCall ''Print :NSAppTransportSecurity:NSAllowsArbitraryLoads'' ''/tmp/Info.plist''
           ''Read existing plist value'',
         plistBuddyCall ''Set :NSAppTransportSecurity:NSAllowsArbitraryLoads true'' ''/tmp/Info.plist''
           ''Set plist value'',
         plistBuddyCall ''Add :NSAppTransportSecurity:NSAllowsArbitraryLoads bool true'' ''/tmp/Info.plist''
           ''Add plist value'']"
proof -
  have present: "file_present (plistPath mismatch_params) = Inr True"
      "file_present (plistPath fallback_params) = Inr True"
    by (simp_all add: file_present_def)
  let ?m1 = "mockResponse True ''12'' None"
  let ?m2 = "mockResponse False [] (Some ''Type mismatch while setting value'')"
  have mread: "mismatch_executor [''/usr/libexec/PlistBuddy'', ''-c'', ''Print '' @ '':Count'', plistPath mismatch_params]
                 ''Read existing plist value'' () = (Inr ?m1, ())"
    by (simp add: mismatch_executor_def)
  have mset: "mismatch_executor [''/usr/libexec/PlistBuddy'', ''-c'', ''Set '' @ '':Count'' @ '' '' @ ''13'', plistPath mismatch_params]
                 ''Set plist value'' () = (Inr ?m2, ())"
    by (simp add: mismatch_executor_def)
  have mfail: "\<not> success ?m2" by (simp add: mockResponse_def)
  have mtext: "getCommandErrorText (Some (output ?m2)) (error ?m2) = ''Type mismatch while setting value''"
    using mismatch_failure(1) by (simp add: mockResponse_def)
  have mcreate: "createIfMissing mismatch_params" by (simp add: mismatch_params_def)
  have mpath: "plistPath mismatch_params = ''/tmp/Info.plist''" by (simp add: mismatch_params_def)
  note m = add_fallback_policy[where existsSync = file_present and fin = finite_always
             and executor = mismatch_executor and params = mismatch_params,
             OF present(1) mismatch_key_path mismatch_value mread mset mfail surjective_pairing
                mtext[symmetric] refl refl refl]
  from m mismatch_failure(2)
  have mres: "fst (set_plist_valueLogic finite_always mismatch_params mismatch_executor file_present (fresh ())) =
        Inr (ErrorResponse ''Failed to set plist value'' (''set_error: '' @ ''Type mismatch while setting value''))"
    and mcalls: "calls (snd (set_plist_valueLogic finite_always mismatch_params mismatch_executor file_present (fresh ()))) =
        [plistBuddyCall (''Print '' @ '':Count'') (plistPath mismatch_params) ''Read existing plist value'',
         plistBuddyCall (''Set '' @ '':Count'' @ '' '' @ ''13'') (plistPath mismatch_params) ''Set plist value'']"
    by blast+
  let ?f1 = "mockResponse False [] (Some ''Entry Does Not Exist'')"
  have fread: "fallback_executor [''/usr/libexec/PlistBuddy'', ''-c'',
                  ''Print '' @ '':NSAppTransportSecurity:NSAllowsArbitraryLoads'', plistPath fallback_params]
                 ''Read existing plist value'' 0 = (Inr ?f1, 1)"
    by (simp add: fallback_executor_def)
  have fset: "fallback_executor [''/usr/libexec/PlistBuddy'', ''-c'',
                  ''Set '' @ '':NSAppTransportSecurity:NSAllowsArbitraryLoads'' @ '' '' @ ''true'', plistPath fallback_params]
                 ''Set plist value'' 1 = (Inr ?f1, 1)"
    by (simp add: fallback_executor_def)
  have ffail: "\<not> success ?f1" by (simp add: mockResponse_def)
  have ftext: "getCommandErrorText (Some (output ?f1)) (error ?f1) = ''Entry Does Not Exist''"
    using missing_failure(1) by (simp add: mockResponse_def)
  have fcreate: "createIfMissing fallback_params" by (simp add: fallback_params_def)
  have fparams: "plistPath fallback_params = ''/tmp/Info.plist''" "valueTypeName (valueType fallback_params) = ''bool''"
    by (simp_all add: fallback_params_def)
  note f = add_fallback_policy[where existsSync = file_present and fin = finite_always
             and executor = fallback_executor and params = fallback_params,
             OF present(2) fallback_key_path fallback_value fread fset ffail surjective_pairing
                ftext[symmetric] refl refl refl]
  from f fcreate missing_failure(2)
  have fcalls: "take 3 (calls (snd (set_plist_valueLogic finite_always fallback_params fallback_executor file_present (fresh 0)))) =
        [plistBuddyCall (''Print '' @ '':NSAppTransportSecurity:NSAllowsArbitraryLoads'') (plistPath fallback_params)
           ''Read existing plist value'',
         plistBuddyCall (''Set '' @ '':NSAppTransportSecurity:NSAllowsArbitraryLoads'' @ '' '' @ ''true'') (plistPath fallback_params)
           ''Set plist value'',
         plistBuddyCall (''Add '' @ '':NSAppTransportSecurity:NSAllowsArbitraryLoads'' @ '' '' @
                         valueTypeName (valueType fallback_params) @ '' '' @ ''true'') (plistPath fallback_params)
           ''Add plist value'']"
    by simp
  from mres have mres': "fst (set_plist_valueLogic finite_always mismatch_params mismatch_executor file_present (fresh ())) =
        Inr (ErrorResponse ''Failed to set plist value'' ''set_error: Type mismatch while setting value'')"
    by simp
  from mcalls have mcalls': "calls (snd (set_plist_valueLogic finite_always mismatch_params mismatch_executor file_present (fresh ()))) =
        [plistBuddyCall ''Print :Count'' ''/tmp/Info.plist'' ''Read existing plist value'',
         plistBuddyCall ''Set :Count 13'' ''/tmp/Info.plist'' ''Set plist value'']"
    by (simp add: mpath)
  from fcalls have fcalls': "take 3 (calls (snd (set_plist_valueLogic finite_always fallback_params fallback_executor file_present (fresh 0)))) =
        [plistBuddyCall ''Print :NSAppTransportSecurity:NSAllowsArbitraryLoads'' ''/tmp/Info.plist''
           ''Read existing plist value'',
         plistBuddyCall ''Set :NSAppTransportSecurity:NSAllowsArbitraryLoads true'' ''/tmp/Info.plist''
           ''Set plist value'',
         plistBuddyCall ''Add :NSAppTransportSecurity:NSAllowsArbitraryLoads bool true'' ''/tmp/Info.plist''
           ''Add plist value'']"
    by (simp add: fparams)
  from mcreate mismatch_failure(2) mres' mcalls' fcreate missing_failure(2) fcalls'
  show ?thesis by (intro conjI)
qed

subsection \<open>Unconfirmed writes\<close>

text \<open>
  Claim C7. When the \<open>Set\<close> command succeeds, or it fails and the fallback \<open>Add\<close>
  succeeds, but the verification read then fails (its promise resolves with
  \<open>success = false\<close>), the tool returns the error response \<open>Failed to verify plist write\<close>
  whose details begin with the marker \<open>verify_error:\<close>, and so with neither \<open>set_error:\<close>
  nor \<open>add_error:\<close>, the markers of the responses for a write that did not happen.
\<close>

theorem unverified_write_is_marked:
  assumes "existsSync (plistPath params) = Inr True"
    and "normalizeKeyPathForPlistBuddy (keyPath params) = KeyPathOk segs p"
    and "normalizeValueForType fin (value params) (valueType params) = ValueOk nv cv"
    and read: "executor [''/usr/libexec/PlistBuddy'', ''-c'', ''Print '' @ p, plistPath params]
                 ''Read existing plist value'' s0 = (o1, s1)"
    and set: "executor [''/usr/libexec/PlistBuddy'', ''-c'', ''Set '' @ p @ '' '' @ cv, plistPath params]
                 ''Set plist value'' s1 = (Inr r2, s2)"
    and mutated: "success r2 \<and> sv = s2
       \<or> (\<not> success r2 \<and> createIfMissing params
          \<and> classifySetFailure (getCommandErrorText (Some (output r2)) (error r2)) \<noteq> NonMissing
          \<and> (\<exists>r3. executor [''/usr/libexec/PlistBuddy'', ''-c'',
                   ''Add '' @ p @ '' '' @ valueTypeName (valueType params) @ '' '' @ cv, plistPath params]
                  ''Add plist value'' s2 = (Inr r3, sv) \<and> success r3))"
    and verify: "executor [''/usr/libexec/PlistBuddy'', ''-c'', ''Print '' @ p, plistPath params]
                 ''Verify plist value'' sv = (Inr rv, s')"
    and unverified: "\<not> success rv"
  shows "\<exists>details w'.
     set_plist_valueLogic fin params executor existsSync (fresh s0) =
       (Inr (ErrorResponse ''Failed to verify plist write'' details), w')
     \<and> details = ''verify_error: '' @ getCommandErrorText (Some (output rv)) (error rv)
     \<and> js_includes details ''verify_error:''
     \<and> prefix ''verify_error:'' details
     \<and> \<not> prefix ''set_error:'' details
     \<and> \<not> prefix ''add_error:'' details
     \<and> exec_state w' = s'"
proof -
  let ?details = "''verify_error: '' @ getCommandErrorText (Some (output rv)) (error rv)"
  let ?prev = "case o1 of
                 Inl e \<Rightarrow> None
               | Inr r1 \<Rightarrow> if success r1
                          then Some (normalizeDisplayedValue (output r1) (valueType params))
                          else None"
  let ?K = "\<lambda>early. case early of
                   Some response \<Rightarrow> returns response
                 | None \<Rightarrow> verifyAndReport params p executor ?prev"
  let ?w2 = "\<lparr>exec_state = s2,
        calls = [plistBuddyCall (''Print '' @ p) (plistPath params) ''Read existing plist value'',
                 plistBuddyCall (''Set '' @ p @ '' '' @ cv) (plistPath params) ''Set plist value'']\<rparr>"
  have start: "set_plist_valueLogic fin params executor existsSync (fresh s0) =
                 and_then (addFallback params p cv executor r2) ?K ?w2"
    by (rule logic_after_set[where existsSync = existsSync and fin = fin and executor = executor,
            OF assms(1-3) read set])
  have "\<exists>wv. and_then (addFallback params p cv executor r2) ?K ?w2 = verifyAndReport params p executor ?prev wv
          \<and> exec_state wv = sv"
  proof (cases "success r2")
    case True
    with mutated have sv: "sv = s2" by blast
    have "addFallback params p cv executor r2 ?w2 = (Inr None, ?w2)"
      using True by (rule addFallback_success)
    then have "and_then (addFallback params p cv executor r2) ?K ?w2 = verifyAndReport params p executor ?prev ?w2"
      by (simp add: and_then_def)
    with sv show ?thesis by (intro exI[of _ ?w2]) simp
  next
    case False
    with mutated obtain r3 where
       create: "createIfMissing params"
       and cls: "classifySetFailure (getCommandErrorText (Some (output r2)) (error r2)) \<noteq> NonMissing"
       and add: "executor [''/usr/libexec/PlistBuddy'', ''-c'',
                   ''Add '' @ p @ '' '' @ valueTypeName (valueType params) @ '' '' @ cv, plistPath params]
                  ''Add plist value'' s2 = (Inr r3, sv)"
       and added: "success r3"
      by blast
    let ?w3 = "\<lparr>exec_state = sv,
       calls = calls ?w2 @ [plistBuddyCall (''Add '' @ p @ '' '' @ valueTypeName (valueType params) @ '' '' @ cv)
                            (plistPath params) ''Add plist value'']\<rparr>"
    have add': "executor [''/usr/libexec/PlistBuddy'', ''-c'',
                   ''Add '' @ p @ '' '' @ valueTypeName (valueType params) @ '' '' @ cv, plistPath params]
                  ''Add plist value'' (exec_state ?w2) = (Inr r3, sv)"
      using add by simp
    have "addFallback params p cv executor r2 ?w2 = (Inr None, ?w3)"
      using addFallback_attempt[where executor = executor and params = params and w = ?w2,
              OF False create cls add'] added
      by simp
    then have "and_then (addFallback params p cv executor r2) ?K ?w2 = verifyAndReport params p executor ?prev ?w3"
      by (simp add: and_then_def)
    then show ?thesis by (intro exI[of _ ?w3]) simp
  qed
  then obtain wv where
    cont: "and_then (addFallback params p cv executor r2) ?K ?w2 = verifyAndReport params p executor ?prev wv"
    and wv: "exec_state wv = sv"
    by blast
  have verify': "executor [''/usr/libexec/PlistBuddy'', ''-c'', ''Print '' @ p, plistPath params]
                 ''Verify plist value'' (exec_state wv) = (Inr rv, s')"
    using verify wv by simp
  have run: "set_plist_valueLogic fin params executor existsSync (fresh s0) =
       (Inr (ErrorResponse ''Failed to verify plist write'' ?details),
        \<lparr>exec_state = s',
         calls = calls wv @ [plistBuddyCall (''Print '' @ p) (plistPath params) ''Verify plist value'']\<rparr>)"
    unfolding start cont
    using verifyAndReport_outcome[where executor = executor and params = params and w = wv, OF verify', of ?prev]
      unverified
    by simp
  have inc: "js_includes ?details ''verify_error:''"
    using js_includes_append[of "[]" "''verify_error:''" "'' '' @ getCommandErrorText (Some (output rv)) (error rv)"]
    by simp
  have pre: "prefix ''verify_error:'' ?details" "\<not> prefix ''set_error:'' ?details"
    "\<not> prefix ''add_error:'' ?details"
    by simp_all
  show ?thesis
    by (intro exI conjI, rule run, rule refl, rule inc, (rule pre)+, simp)
qed

theorem unverified_write_is_marked_witness:
  "createIfMissing overwrite_params
   \<and> classifySetFailure ''Entry Does Not Exist'' = MissingKey
   \<and> (\<exists>w'. set_plist_valueLogic finite_always overwrite_params unverified_executor file_present (fresh ()) =
          (Inr (ErrorResponse ''Failed to verify plist write'' ''verify_error: File not readable''), w'))"
proof -
  have present: "file_present (plistPath overwrite_params) = Inr True" by (simp add: file_present_def)
  let ?unread = "mockResponse False ''File not readable'' None"
  let ?missing = "mockResponse False [] (Some ''Entry Does Not Exist'')"
  let ?added = "mockResponse True [] None"
  let ?cv = "[dquote] @ ''New Name'' @ [dquote]"
  have read: "unverified_executor
                [''/usr/libexec/PlistBuddy'', ''-c'', ''Print '' @ '':CFBundleDisplayName'', plistPath overwrite_params]
                ''Read existing plist value'' () = (Inr ?unread, ())"
    by (simp add: unverified_executor_def)
  have set: "unverified_executor
                [''/usr/libexec/PlistBuddy'', ''-c'', ''Set '' @ '':CFBundleDisplayName'' @ '' '' @ ?cv,
                 plistPath overwrite_params]
                ''Set plist value'' () = (Inr ?missing, ())"
    by (simp add: unverified_executor_def)
  have add: "unverified_executor
                [''/usr/libexec/PlistBuddy'', ''-c'',
                 ''Add '' @ '':CFBundleDisplayName'' @ '' '' @ valueTypeName (valueType overwrite_params) @ '' '' @ ?cv,
                 plistPath overwrite_params]
                ''Add plist value'' () = (Inr ?added, ())"
    by (simp add: unverified_executor_def)
  have verify: "unverified_executor
                [''/usr/libexec/PlistBuddy'', ''-c'', ''Print '' @ '':CFBundleDisplayName'', plistPath overwrite_params]
                ''Verify plist value'' () = (Inr ?unread, ())"
    by (simp add: unverified_executor_def)
  have create: "createIfMissing overwrite_params" by (simp add: overwrite_params_def)
  have failed: "\<not> success ?missing" "\<not> success ?unread" and added: "success ?added"
    by (simp_all add: mockResponse_def)
  have cls: "classifySetFailure (getCommandErrorText (Some (output ?missing)) (error ?missing)) \<noteq> NonMissing"
    using missing_failure by (simp add: mockResponse_def)
  have mutated: "success ?missing \<and> () = ()
       \<or> (\<not> success ?missing \<and> createIfMissing overwrite_params
          \<and> classifySetFailure (getCommandErrorText (Some (output ?missing)) (error ?missing)) \<noteq> NonMissing
          \<and> (\<exists>r3. unverified_executor [''/usr/libexec/PlistBuddy'', ''-c'',
                   ''Add '' @ '':CFBundleDisplayName'' @ '' '' @ valueTypeName (valueType overwrite_params) @ '' '' @ ?cv,
                   plistPath overwrite_params]
                  ''Add plist value'' () = (Inr r3, ()) \<and> success r3))"
    using failed(1) create cls add added by blast
  have shown: "getCommandErrorText (Some (output ?unread)) (error ?unread) = ''File not readable''"
    by (simp add: mockResponse_def getCommandErrorText_def js_trim_def js_whitespace_def)
  from unverified_write_is_marked[where existsSync = file_present and fin = finite_always
         and executor = unverified_executor and params = overwrite_params,
         OF present overwrite_key_path overwrite_value read set mutated verify failed(2)]
  obtain details w' where
     run: "set_plist_valueLogic finite_always overwrite_params unverified_executor file_present (fresh ()) =
             (Inr (ErrorResponse ''Failed to verify plist write'' details), w')"
     and details: "details = ''verify_error: '' @ getCommandErrorText (Some (output ?unread)) (error ?unread)"
    by blast
  from details have "details = ''verify_error: File not readable''"
    by (simp only: shown) simp
  with run have "\<exists>w'. set_plist_valueLogic finite_always overwrite_params unverified_executor file_present (fresh ()) =
          (Inr (ErrorResponse ''Failed to verify plist write'' ''verify_error: File not readable''), w')"
    by blast
  with create missing_failure(2) show ?thesis by (intro conjI)
qed

subsection \<open>Values as PlistBuddy receives them\<close>

lemma quoteLoop_escape: "quoteLoop v escaped = escaped @ concat (map escape_of v)"
  by (induction v arbitrary: escaped) (simp_all add: escape_of_def)

lemma fallback_then_verify_calls:
  "\<exists>rest. calls (snd (and_then (addFallback params p cv executor r)
                       (\<lambda>early. case early of
                                   Some response \<Rightarrow> returns response
                                 | None \<Rightarrow> verifyAndReport params p executor prev) w)) = calls w @ rest"
proof -
  let ?K = "\<lambda>early. case early of
                       Some response \<Rightarrow> returns response
                     | None \<Rightarrow> verifyAndReport params p executor prev"
  have K: "\<exists>rest. calls (snd (?K early w1)) = calls w1 @ rest" for early w1
    using verifyAndReport_calls[of params p executor prev w1]
    by (cases early) (simp_all add: returns_def)
  have F: "\<exists>rest. calls (snd (addFallback params p cv executor r w)) = calls w @ rest"
  proof (cases "\<not> success r \<and> createIfMissing params
                 \<and> classifySetFailure (getCommandErrorText (Some (output r)) (error r)) \<noteq> NonMissing")
    case True
    obtain oc s3 where add: "executor [''/usr/libexec/PlistBuddy'', ''-c'',
                   ''Add '' @ p @ '' '' @ valueTypeName (valueType params) @ '' '' @ cv, plistPath params]
           ''Add plist value'' (exec_state w) = (oc, s3)"
      by (cases "executor [''/usr/libexec/PlistBuddy'', ''-c'',
                   ''Add '' @ p @ '' '' @ valueTypeName (valueType params) @ '' '' @ cv, plistPath params]
           ''Add plist value'' (exec_state w)")
    show ?thesis
      using addFallback_attempt[where executor = executor and params = params and w = w, OF _ _ _ add] True
      by simp
  next
    case False
    show ?thesis
    proof (cases "success r")
      case True
      then show ?thesis by (simp add: addFallback_success)
    next
      case failed: False
      with False show ?thesis by (simp add: addFallback_refused)
    qed
  qed
  obtain x w1 where fw: "addFallback params p cv executor r w = (x, w1)"
    by (cases "addFallback params p cv executor r w")
  with F obtain rest1 where r1: "calls w1 = calls w @ rest1" by auto
  show ?thesis
  proof (cases x)
    case (Inl e)
    with fw r1 show ?thesis by (simp add: and_then_def)
  next
    case (Inr early)
    from K[of early w1] obtain rest2 where "calls (snd (?K early w1)) = calls w1 @ rest2" by blast
    with Inr fw r1 show ?thesis by (simp add: and_then_def)
  qed
qed

lemma logic_first_two_calls:
  assumes "existsSync (plistPath params) = Inr True"
    and "normalizeKeyPathForPlistBuddy (keyPath params) = KeyPathOk segs p"
    and "normalizeValueForType fin (value params) (valueType params) = ValueOk nv cv"
  shows "take 2 (calls (snd (set_plist_valueLogic fin params executor existsSync (fresh s0)))) =
           [plistBuddyCall (''Print '' @ p) (plistPath params) ''Read existing plist value'',
            plistBuddyCall (''Set '' @ p @ '' '' @ cv) (plistPath params) ''Set plist value'']"
proof -
  obtain o1 s1 where read: "executor [''/usr/libexec/PlistBuddy'', ''-c'', ''Print '' @ p, plistPath params]
                 ''Read existing plist value'' s0 = (o1, s1)"
    by (cases "executor [''/usr/libexec/PlistBuddy'', ''-c'', ''Print '' @ p, plistPath params]
                 ''Read existing plist value'' s0")
  obtain o2 s2 where set: "executor [''/usr/libexec/PlistBuddy'', ''-c'', ''Set '' @ p @ '' '' @ cv, plistPath params]
                 ''Set plist value'' s1 = (o2, s2)"
    by (cases "executor [''/usr/libexec/PlistBuddy'', ''-c'', ''Set '' @ p @ '' '' @ cv, plistPath params]
                 ''Set plist value'' s1")
  let ?w1 = "\<lparr>exec_state = s1,
              calls = [plistBuddyCall (''Print '' @ p) (plistPath params) ''Read existing plist value'']\<rparr>"
  let ?w2 = "\<lparr>exec_state = s2,
              calls = [plistBuddyCall (''Print '' @ p) (plistPath params) ''Read existing plist value'',
                       plistBuddyCall (''Set '' @ p @ '' '' @ cv) (plistPath params) ''Set plist value'']\<rparr>"
  show ?thesis
  proof (cases o2)
    case (Inl e)
    let ?prev = "case o1 of
                 Inl e \<Rightarrow> None
               | Inr r1 \<Rightarrow> if success r1
                          then Some (normalizeDisplayedValue (output r1) (valueType params))
                          else None"
    have s1: "readPreviousValue params p executor (fresh s0) = (Inr ?prev, ?w1)"
      using readPreviousValue_outcome[of executor p params "fresh s0" o1 s1] read
      by (simp add: fresh_def)
    have s2: "runPlistBuddyCommand (''Set '' @ p @ '' '' @ cv) (plistPath params) executor ''Set plist value'' ?w1
              = (Inl e, ?w2)"
      using runPlistBuddyCommand_outcome[of executor "''Set '' @ p @ '' '' @ cv" "plistPath params"
            "''Set plist value''" ?w1 "Inl e" s2] set Inl
      by simp
    have "set_plist_valueLogic fin params executor existsSync (fresh s0) = (Inl e, ?w2)"
      unfolding logic_after_preflight[where existsSync = existsSync and fin = fin, OF assms(1-3)]
      by (simp only: and_then_def[of "readPreviousValue params p executor"]
          and_then_def[of "runPlistBuddyCommand (''Set '' @ p @ '' '' @ cv) (plistPath params) executor ''Set plist value''"]
          s1 s2 prod.case sum.case)
    then show ?thesis by simp
  next
    case (Inr r)
    with set have set': "executor [''/usr/libexec/PlistBuddy'', ''-c'', ''Set '' @ p @ '' '' @ cv, plistPath params]
                 ''Set plist value'' s1 = (Inr r, s2)" by simp
    from fallback_then_verify_calls[of params p cv executor r _ ?w2]
      logic_after_set[where existsSync = existsSync and fin = fin and executor = executor,
            OF assms(1-3) read set']
    obtain rest where "calls (snd (set_plist_valueLogic fin params executor existsSync (fresh s0))) = calls ?w2 @ rest"
      by auto
    then show ?thesis by simp
  qed
qed

text \<open>
  Claim C9. A string value is handed to PlistBuddy wrapped in double quotes, with
  backslash, double quote, newline, carriage return and tab each replaced by its
  backslash escape and every other character kept. A valid bool value is sent trimmed
  and lowercased (so as \<open>true\<close> or \<open>false\<close>), a valid int or real value trimmed, none of
  them quoted. The value so prepared is the argument of the \<open>Set\<close> command, the second
  command the tool issues.
\<close>

theorem values_prepared_for_plistbuddy:
  "quotePlistBuddyString v = [dquote] @ concat (map escape_of v) @ [dquote]
   \<and> normalizeValueForType fin v String_t = ValueOk v (quotePlistBuddyString v)
   \<and> (validateValueForType fin v Bool_t = None \<longrightarrow>
        normalizeValueForType fin v Bool_t = ValueOk (toLowerCase (js_trim v)) (toLowerCase (js_trim v))
        \<and> (toLowerCase (js_trim v) = ''true'' \<or> toLowerCase (js_trim v) = ''false''))
   \<and> (validateValueForType fin v Int_t = None \<longrightarrow>
        normalizeValueForType fin v Int_t = ValueOk (js_trim v) (js_trim v))
   \<and> (validateValueForType fin v Real_t = None \<longrightarrow>
        normalizeValueForType fin v Real_t = ValueOk (js_trim v) (js_trim v))
   \<and> (existsSync (plistPath params) = Inr True
        \<and> normalizeKeyPathForPlistBuddy (keyPath params) = KeyPathOk segs p
        \<and> normalizeValueForType fin (value params) (valueType params) = ValueOk nv cv \<longrightarrow>
        take 2 (calls (snd (set_plist_valueLogic fin params executor existsSync (fresh s0)))) =
           [plistBuddyCall (''Print '' @ p) (plistPath params) ''Read existing plist value'',
            plistBuddyCall (''Set '' @ p @ '' '' @ cv) (plistPath params) ''Set plist value''])"
proof (intro conjI impI)
  show "quotePlistBuddyString v = [dquote] @ concat (map escape_of v) @ [dquote]"
    by (simp add: quotePlistBuddyString_def quoteLoop_escape)
  show "normalizeValueForType fin v String_t = ValueOk v (quotePlistBuddyString v)"
    by (simp add: normalizeValueForType_def validateValueForType_def)
next
  assume ok: "validateValueForType fin v Bool_t = None"
  then show "normalizeValueForType fin v Bool_t = ValueOk (toLowerCase (js_trim v)) (toLowerCase (js_trim v))"
    by (simp add: normalizeValueForType_def)
  from ok show "toLowerCase (js_trim v) = ''true'' \<or> toLowerCase (js_trim v) = ''false''"
    by (auto simp add: validateValueForType_def split: if_splits)
next
  assume "validateValueForType fin v Int_t = None"
  then show "normalizeValueForType fin v Int_t = ValueOk (js_trim v) (js_trim v)"
    by (simp add: normalizeValueForType_def)
next
  assume "validateValueForType fin v Real_t = None"
  then show "normalizeValueForType fin v Real_t = ValueOk (js_trim v) (js_trim v)"
    by (simp add: normalizeValueForType_def)
next
  assume pre: "existsSync (plistPath params) = Inr True
        \<and> normalizeKeyPathForPlistBuddy (keyPath params) = KeyPathOk segs p
        \<and> normalizeValueForType fin (value params) (valueType params) = ValueOk nv cv"
  then show "take 2 (calls (snd (set_plist_valueLogic fin params executor existsSync (fresh s0)))) =
           [plistBuddyCall (''Print '' @ p) (plistPath params) ''Read existing plist value'',
            plistBuddyCall (''Set '' @ p @ '' '' @ cv) (plistPath params) ''Set plist value'']"
    using logic_first_two_calls[where existsSync = existsSync and fin = fin and executor = executor
            and params = params and segs = segs and p = p and nv = nv and cv = cv and ?s0.0 = s0]
    by blast
qed

theorem values_prepared_for_plistbuddy_witness:
  "quotePlistBuddyString (''Line1'' @ [newline] @ ''Line2'' @ [tab, dquote] @ ''Quote'' @ [dquote, backslash] @ ''Slash'') =
     [dquote] @ ''Line1'' @ [backslash] @ ''nLine2'' @ [backslash] @ ''t'' @ [backslash, dquote] @ ''Quote'' @
     [backslash, dquote, backslash, backslash] @ ''Slash'' @ [dquote]
   \<and> validateValueForType finite_always '' TRUE '' Bool_t = None
   \<and> normalizeValueForType finite_always '' TRUE '' Bool_t = ValueOk ''true'' ''true''
   \<and> validateValueForType finite_always '' -42 '' Int_t = None
   \<and> normalizeValueForType finite_always '' -42 '' Int_t = ValueOk ''-42'' ''-42''
   \<and> validateValueForType finite_always ''1e3 '' Real_t = None
   \<and> normalizeValueForType finite_always ''1e3 '' Real_t = ValueOk ''1e3'' ''1e3''
   \<and> take 2 (calls (snd (set_plist_valueLogic finite_always overwrite_params rejecting_executor file_present (fresh ())))) =
        [plistBuddyCall ''Print :CFBundleDisplayName'' ''/tmp/Info.plist'' ''Read existing plist value'',
         plistBuddyCall (''Set :CFBundleDisplayName '' @ [dquote] @ ''New Name'' @ [dquote]) ''/tmp/Info.plist''
           ''Set plist value'']"
proof -
  let ?v = "''Line1'' @ [newline] @ ''Line2'' @ [tab, dquote] @ ''Quote'' @ [dquote, backslash] @ ''Slash''"
  have q: "quotePlistBuddyString ?v =
     [dquote] @ ''Line1'' @ [backslash] @ ''nLine2'' @ [backslash] @ ''t'' @ [backslash, dquote] @ ''Quote'' @
     [backslash, dquote, backslash, backslash] @ ''Slash'' @ [dquote]"
    using values_prepared_for_plistbuddy[of ?v, THEN conjunct1]
    by (simp add: escape_of_def)
  have tb: "js_trim '' TRUE '' = ''TRUE''" and ti: "js_trim '' -42 '' = ''-42''" and tr: "js_trim ''1e3 '' = ''1e3''"
    by (simp_all add: js_trim_def js_whitespace_def)
  have lb: "toLowerCase ''TRUE'' = ''true''"
    by (simp add: toLowerCase_def js_lower_char_def upper_letters_def lower_letters_def)
  have vb: "validateValueForType finite_always '' TRUE '' Bool_t = None"
    by (simp add: validateValueForType_def tb lb)
  have mi: "rx_test int_pattern ''-42''"
    by (simp add: rx_test_def int_pattern_def Opt_def Plus_def sign_def digit_def)
  have vi: "validateValueForType finite_always '' -42 '' Int_t = None"
    by (simp add: validateValueForType_def ti mi)
  have mr: "rx_test real_pattern ''1e3''"
    by (simp add: rx_test_def real_pattern_def Opt_def Plus_def sign_def digit_def)
  have vr: "validateValueForType finite_always ''1e3 '' Real_t = None"
    by (simp add: validateValueForType_def tr mr finite_always_def)
  note t = values_prepared_for_plistbuddy[where fin = finite_always and existsSync = file_present
      and params = overwrite_params and executor = rejecting_executor and ?s0.0 = "()"
      and segs = "[''CFBundleDisplayName'']" and p = "'':CFBundleDisplayName''"
      and nv = "''New Name''" and cv = "[dquote] @ ''New Name'' @ [dquote]"]
  have nb: "normalizeValueForType finite_always '' TRUE '' Bool_t = ValueOk ''true'' ''true''"
    using t[of "'' TRUE ''"] vb by (simp add: tb lb)
  have ni: "normalizeValueForType finite_always '' -42 '' Int_t = ValueOk ''-42'' ''-42''"
    using t[of "'' -42 ''"] vi by (simp add: ti)
  have nr: "normalizeValueForType finite_always ''1e3 '' Real_t = ValueOk ''1e3'' ''1e3''"
    using t[of "''1e3 ''"] vr by (simp add: tr)
  have present: "file_present (plistPath overwrite_params) = Inr True" by (simp add: file_present_def)
  have c: "take 2 (calls (snd (set_plist_valueLogic finite_always overwrite_params rejecting_executor file_present (fresh ())))) =
        [plistBuddyCall (''Print '' @ '':CFBundleDisplayName'') (plistPath overwrite_params) ''Read existing plist value'',
         plistBuddyCall (''Set '' @ '':CFBundleDisplayName'' @ '' '' @ ([dquote] @ ''New Name'' @ [dquote]))
           (plistPath overwrite_params) ''Set plist value'']"
    using t[of "[]"] present overwrite_key_path overwrite_value by blast
  then have c': "take 2 (calls (snd (set_plist_valueLogic finite_always overwrite_params rejecting_executor file_present (fresh ())))) =
        [plistBuddyCall ''Print :CFBundleDisplayName'' ''/tmp/Info.plist'' ''Read existing plist value'',
         plistBuddyCall (''Set :CFBundleDisplayName '' @ [dquote] @ ''New Name'' @ [dquote]) ''/tmp/Info.plist''
           ''Set plist value'']"
    by (simp add: overwrite_params_def)
  from q vb nb vi ni vr nr c' show ?thesis by (intro conjI)
qed

section \<open>Exceptions at the boundary of the tools\<close>




















section \<open>Properties of the doctor probes\<close>

text \<open>
  Claim C1. For the binary name \<open>xcodemake\<close> the probe makes one call, to the read-only
  \<open>isXcodemakeBinaryAvailable\<close>, and nothing else, whatever that call does: no command
  reaches the executor, whose state is unchanged. It reports what that check answered,
  and when the binary is absent the result is \<open>available = false\<close> with no version.
\<close>

theorem xcodemake_probe_is_read_only:
  "calls (snd (checkBinaryAvailability h executor ''xcodemake'' w)) =
     calls w @ [IsXcodemakeBinaryAvailableCall]
   \<and> exec_state (snd (checkBinaryAvailability h executor ''xcodemake'' w)) = exec_state w
   \<and> (isXcodemakeBinaryAvailable h = Inr avail \<longrightarrow>
        checkBinaryAvailability h executor ''xcodemake'' w =
          (Inr \<lparr>available = avail,
                version = (if avail then Some ''Available (version info not available)'' else None)\<rparr>,
           w\<lparr>calls := calls w @ [IsXcodemakeBinaryAvailableCall]\<rparr>))
   \<and> (isXcodemakeBinaryAvailable h = Inr False \<longrightarrow>
        fst (checkBinaryAvailability h executor ''xcodemake'' w) = Inr \<lparr>available = False, version = None\<rparr>)"
  by (cases "isXcodemakeBinaryAvailable h")
     (simp_all add: checkBinaryAvailability_def and_then_def call_isXcodemakeBinaryAvailable_def returns_def)

theorem xcodemake_probe_is_read_only_witness:
  "isXcodemakeBinaryAvailable sample_host = Inr False
   \<and> checkBinaryAvailability sample_host rejecting_executor ''xcodemake'' (fresh ()) =
       (Inr \<lparr>available = False, version = None\<rparr>,
        \<lparr>exec_state = (), calls = [IsXcodemakeBinaryAvailableCall]\<rparr>)"
proof -
  have absent: "isXcodemakeBinaryAvailable sample_host = Inr False" by (simp add: sample_host_def)
  from xcodemake_probe_is_read_only[of sample_host rejecting_executor "fresh ()" False,
         THEN conjunct2, THEN conjunct2, THEN conjunct1, rule_format, OF absent]
  have "checkBinaryAvailability sample_host rejecting_executor ''xcodemake'' (fresh ()) =
       (Inr \<lparr>available = False, version = None\<rparr>,
        \<lparr>exec_state = (), calls = [IsXcodemakeBinaryAvailableCall]\<rparr>)"
    by (simp add: fresh_def)
  with absent show ?thesis by (intro conjI)
qed

subsection \<open>The environment snapshot\<close>

lemma foldl_store_all:
  "foldl (\<lambda>m k. m(k \<mapsto> f k)) m0 xs = (\<lambda>k. if k \<in> set xs then Some (f k) else m0 k)"
  by (induction xs arbitrary: m0) (auto simp: fun_eq_iff)

lemma foldl_store_some:
  "foldl (\<lambda>m k. if P k then m(k \<mapsto> f k) else m) m0 xs =
     (\<lambda>k. if k \<in> set xs \<and> P k then Some (f k) else m0 k)"
  by (induction xs arbitrary: m0) (auto simp: fun_eq_iff)

lemma getEnvironmentVariables_char:
  "getEnvironmentVariables h name =
     (if name \<in> set relevantVars \<or> (name \<in> fst ` set (process_env h) \<and> prefix ''XCODEBUILDMCP_'' name)
      then Some (map_of (process_env h) name) else None)"
  unfolding getEnvironmentVariables_def Let_def foldl_store_all foldl_store_some
  by auto

text \<open>
  Claim C8. The keys of the record that \<open>getEnvironmentVariables\<close> returns are exactly the
  twelve always-shown names together with every name of \<open>process.env\<close> that starts with
  \<open>XCODEBUILDMCP_\<close>, and each key is mapped to the raw value \<open>process.env\<close> has for it
  (\<open>undefined\<close> when the variable is not set).
\<close>

theorem environment_snapshot_keys:
  "dom (getEnvironmentVariables h) =
     {''INCREMENTAL_BUILDS_ENABLED'', ''PATH'', ''DEVELOPER_DIR'', ''HOME'', ''USER'', ''TMPDIR'',
      ''NODE_ENV'', ''SENTRY_DISABLED'', ''AXE_PATH'', ''XBMCP_LAUNCH_JSON_WAIT_MS'',
      ''XCODEBUILDMCP_DEBUGGER_BACKEND'', ''XCODEBUILDMCP_UI_DEBUGGER_GUARD_MODE''}
     \<union> {name \<in> fst ` set (process_env h). prefix ''XCODEBUILDMCP_'' name}
   \<and> (\<forall>name \<in> dom (getEnvironmentVariables h).
        getEnvironmentVariables h name = Some (map_of (process_env h) name))"
proof
  have fixed: "set relevantVars =
     {''INCREMENTAL_BUILDS_ENABLED'', ''PATH'', ''DEVELOPER_DIR'', ''HOME'', ''USER'', ''TMPDIR'',
      ''NODE_ENV'', ''SENTRY_DISABLED'', ''AXE_PATH'', ''XBMCP_LAUNCH_JSON_WAIT_MS'',
      ''XCODEBUILDMCP_DEBUGGER_BACKEND'', ''XCODEBUILDMCP_UI_DEBUGGER_GUARD_MODE''}"
    unfolding relevantVars_def by (simp only: list.set)
  have "dom (getEnvironmentVariables h) =
          set relevantVars \<union> {name \<in> fst ` set (process_env h). prefix ''XCODEBUILDMCP_'' name}"
    unfolding dom_def getEnvironmentVariables_char by (auto split: if_splits)
  then show "dom (getEnvironmentVariables h) =
     {''INCREMENTAL_BUILDS_ENABLED'', ''PATH'', ''DEVELOPER_DIR'', ''HOME'', ''USER'', ''TMPDIR'',
      ''NODE_ENV'', ''SENTRY_DISABLED'', ''AXE_PATH'', ''XBMCP_LAUNCH_JSON_WAIT_MS'',
      ''XCODEBUILDMCP_DEBUGGER_BACKEND'', ''XCODEBUILDMCP_UI_DEBUGGER_GUARD_MODE''}
     \<union> {name \<in> fst ` set (process_env h). prefix ''XCODEBUILDMCP_'' name}"
    unfolding fixed .
  show "\<forall>name \<in> dom (getEnvironmentVariables h).
        getEnvironmentVariables h name = Some (map_of (process_env h) name)"
    unfolding dom_def getEnvironmentVariables_char by (auto split: if_splits)
qed

theorem environment_snapshot_keys_witness:
  "getEnvironmentVariables sample_host ''HOME'' = Some (Some ''/Users/dev'')
   \<and> getEnvironmentVariables sample_host ''PATH'' = Some None
   \<and> getEnvironmentVariables sample_host ''XCODEBUILDMCP_DEBUG'' = Some (Some ''1'')
   \<and> ''SHELL'' \<notin> dom (getEnvironmentVariables sample_host)"
proof -
  note keys = environment_snapshot_keys[of sample_host, THEN conjunct1]
  note vals = environment_snapshot_keys[of sample_host, THEN conjunct2, rule_format]
  have home: "''HOME'' \<in> dom (getEnvironmentVariables sample_host)"
    unfolding keys by simp
  have path: "''PATH'' \<in> dom (getEnvironmentVariables sample_host)"
    unfolding keys by simp
  have debug: "''XCODEBUILDMCP_DEBUG'' \<in> dom (getEnvironmentVariables sample_host)"
    unfolding keys by (simp add: sample_host_def)
  have shell: "''SHELL'' \<notin> dom (getEnvironmentVariables sample_host)"
    unfolding keys by (simp add: sample_host_def)
  from vals[OF home] have v1: "getEnvironmentVariables sample_host ''HOME'' = Some (Some ''/Users/dev'')"
    by (simp add: sample_host_def)
  from vals[OF path] have v2: "getEnvironmentVariables sample_host ''PATH'' = Some None"
    by (simp add: sample_host_def)
  from vals[OF debug] have v3: "getEnvironmentVariables sample_host ''XCODEBUILDMCP_DEBUG'' = Some (Some ''1'')"
    by (simp add: sample_host_def)
  from v1 v2 v3 shell show ?thesis by (intro conjI)
qed

end
